theory Spec2Isabelle
  imports Complex_Main "HOL-Library.Word"
begin

unbundle bit_operations_syntax

section \<open>JavaScript numbers\<close>

text \<open>
  A JavaScript number is a double: a finite value, NaN or one of the two infinities. A
  finite value is carried as the real it denotes. The sign of zero is not modelled.
\<close>

datatype number = Fin real | NaN | PosInf | NegInf

text \<open>
  Rounding to the nearest double, ties to the even significand. \<open>ulp v\<close> is the gap
  between the doubles around \<open>v\<close>: \<open>2^(e - 52)\<close> where \<open>2^e \<le> |v| < 2^(e + 1)\<close>, and
  \<open>2^(-1074)\<close> below the normal range. \<open>fl v\<close> is the number value of the real \<open>v\<close>:
  the magnitude is rounded to a multiple of the gap, and a result that reaches \<open>2^1024\<close>
  is an infinity. Every arithmetic operation and every decimal literal rounds once.
\<close>

definition round_even :: "real \<Rightarrow> int" where
  "round_even m =
     (let f = \<lfloor>m\<rfloor>; r = m - of_int f
      in if r < 1 / 2 then f else if 1 / 2 < r then f + 1 else if even f then f else f + 1)"

definition ulp :: "real \<Rightarrow> real" where
  "ulp v = 2 powr of_int (max \<lfloor>log 2 \<bar>v\<bar>\<rfloor> (- 1022) - 52)"

definition fl :: "real \<Rightarrow> number" where
  "fl v =
     (if v = 0 then Fin 0
      else
        (let r = of_int (round_even (\<bar>v\<bar> / ulp v)) * ulp v
         in if 2 ^ 1024 \<le> r then (if 0 < v then PosInf else NegInf) else Fin (sgn v * r)))"

fun isFinite :: "number \<Rightarrow> bool" where
  "isFinite (Fin a) = True"
| "isFinite NaN = False"
| "isFinite PosInf = False"
| "isFinite NegInf = False"

fun js_neg :: "number \<Rightarrow> number" where
  "js_neg (Fin a) = Fin (- a)"
| "js_neg NaN = NaN"
| "js_neg PosInf = NegInf"
| "js_neg NegInf = PosInf"

fun js_abs :: "number \<Rightarrow> number" where
  "js_abs (Fin a) = Fin \<bar>a\<bar>"
| "js_abs NaN = NaN"
| "js_abs PosInf = PosInf"
| "js_abs NegInf = PosInf"

fun js_add :: "number \<Rightarrow> number \<Rightarrow> number" where
  "js_add (Fin a) (Fin b) = fl (a + b)"
| "js_add NaN b = NaN"
| "js_add a NaN = NaN"
| "js_add PosInf NegInf = NaN"
| "js_add NegInf PosInf = NaN"
| "js_add PosInf b = PosInf"
| "js_add NegInf b = NegInf"
| "js_add (Fin a) b = b"

definition js_sub :: "number \<Rightarrow> number \<Rightarrow> number" where
  "js_sub a b = js_add a (js_neg b)"

text \<open>The sign of an infinite product or quotient: that of the finite factor.\<close>

definition inf_signed :: "real \<Rightarrow> number" where
  "inf_signed s = (if s = 0 then NaN else if 0 < s then PosInf else NegInf)"

fun js_mul :: "number \<Rightarrow> number \<Rightarrow> number" where
  "js_mul (Fin a) (Fin b) = fl (a * b)"
| "js_mul NaN b = NaN"
| "js_mul a NaN = NaN"
| "js_mul (Fin a) PosInf = inf_signed a"
| "js_mul (Fin a) NegInf = inf_signed (- a)"
| "js_mul PosInf (Fin b) = inf_signed b"
| "js_mul NegInf (Fin b) = inf_signed (- b)"
| "js_mul PosInf PosInf = PosInf"
| "js_mul NegInf NegInf = PosInf"
| "js_mul PosInf NegInf = NegInf"
| "js_mul NegInf PosInf = NegInf"

text \<open>
  Division. A finite non-zero value over zero is an infinity whose sign is that of the
  dividend: the zero is taken as positive, since the sign of zero is not modelled.
\<close>

fun js_div :: "number \<Rightarrow> number \<Rightarrow> number" where
  "js_div (Fin a) (Fin b) = (if b = 0 then inf_signed a else fl (a / b))"
| "js_div NaN b = NaN"
| "js_div a NaN = NaN"
| "js_div (Fin a) PosInf = Fin 0"
| "js_div (Fin a) NegInf = Fin 0"
| "js_div PosInf (Fin b) = (if 0 \<le> b then PosInf else NegInf)"
| "js_div NegInf (Fin b) = (if 0 \<le> b then NegInf else PosInf)"
| "js_div PosInf PosInf = NaN"
| "js_div PosInf NegInf = NaN"
| "js_div NegInf PosInf = NaN"
| "js_div NegInf NegInf = NaN"

text \<open>The comparison \<open>a < b\<close>; every comparison with NaN is false.\<close>

fun js_lt :: "number \<Rightarrow> number \<Rightarrow> bool" where
  "js_lt (Fin a) (Fin b) = (a < b)"
| "js_lt NaN b = False"
| "js_lt a NaN = False"
| "js_lt a NegInf = False"
| "js_lt PosInf b = False"
| "js_lt NegInf b = True"
| "js_lt (Fin a) PosInf = True"

definition js_gt :: "number \<Rightarrow> number \<Rightarrow> bool" where
  "js_gt a b = js_lt b a"

text \<open>Truthiness, for \<open>a || b\<close>: zero and NaN are falsy.\<close>

fun truthy :: "number \<Rightarrow> bool" where
  "truthy (Fin a) = (a \<noteq> 0)"
| "truthy NaN = False"
| "truthy PosInf = True"
| "truthy NegInf = True"

definition js_or :: "number \<Rightarrow> number \<Rightarrow> number" where
  "js_or a b = (if truthy a then a else b)"

text \<open>\<open>Math.min(...xs)\<close> and \<open>Math.max(...xs)\<close>: NaN if any argument is, the infinity when
  there is none.\<close>

definition min2 :: "number \<Rightarrow> number \<Rightarrow> number" where
  "min2 a b = (if a = NaN \<or> b = NaN then NaN else if js_lt b a then b else a)"

definition max2 :: "number \<Rightarrow> number \<Rightarrow> number" where
  "max2 a b = (if a = NaN \<or> b = NaN then NaN else if js_lt a b then b else a)"

definition Math_min :: "number list \<Rightarrow> number" where
  "Math_min xs = foldl min2 PosInf xs"

definition Math_max :: "number list \<Rightarrow> number" where
  "Math_max xs = foldl max2 NegInf xs"

subsection \<open>Rounding\<close>

lemma fl_0: "fl 0 = Fin 0" by (simp add: fl_def)

lemma fl_not_NaN: "fl v \<noteq> NaN" by (simp add: fl_def Let_def)

lemma round_even_int: "round_even (of_int k) = k"
  by (simp add: round_even_def)

lemma round_even_near: "\<bar>of_int (round_even m) - m\<bar> \<le> 1 / 2"
proof -
  have "of_int \<lfloor>m\<rfloor> \<le> m" "m < of_int \<lfloor>m\<rfloor> + 1" by linarith+
  then show ?thesis by (auto simp add: round_even_def Let_def)
qed

lemma binade_le:
  assumes "0 < x"
  shows "2 powr of_int \<lfloor>log 2 x\<rfloor> \<le> x"
proof -
  have "2 powr of_int \<lfloor>log 2 x\<rfloor> \<le> 2 powr (log 2 x)" by (intro powr_mono) simp_all
  then show ?thesis using assms by simp
qed


lemma binade_lower: "0 < x \<Longrightarrow> 2 powr of_int k \<le> x \<Longrightarrow> k \<le> \<lfloor>log 2 x\<rfloor>"
proof -
  assume x: "0 < x" and k: "2 powr of_int k \<le> x"
  have "of_int k \<le> log 2 x" using x k by (simp add: le_log_iff)
  then show ?thesis by (simp add: le_floor_iff)
qed

lemma binade_upper: "0 < x \<Longrightarrow> x < 2 powr of_int k \<Longrightarrow> \<lfloor>log 2 x\<rfloor> < k"
proof -
  assume x: "0 < x" and k: "x < 2 powr of_int k"
  have "log 2 x < of_int k" using x k by (simp add: log_less_iff)
  then show ?thesis by (simp add: floor_less_iff)
qed

lemma powr_int_pos: "0 \<le> k \<Longrightarrow> (2::real) powr of_int k = 2 ^ nat k"
  by (metis of_int_of_nat_eq of_nat_nat powr_realpow zero_less_numeral)

lemma binade_nat:
  assumes "0 < n" "n < 2 ^ 53"
  shows "0 \<le> \<lfloor>log 2 (real n)\<rfloor>" "\<lfloor>log 2 (real n)\<rfloor> \<le> 52"
proof -
  have "0 \<le> log 2 (real n)" using assms(1) by simp
  then show "0 \<le> \<lfloor>log 2 (real n)\<rfloor>" by simp
  have "real n < 2 ^ 53" using assms(2) by (metis of_nat_less_iff of_nat_numeral of_nat_power)
  then have "real n < 2 powr of_int 53" by (simp add: powr_int_pos)
  then have "\<lfloor>log 2 (real n)\<rfloor> < 53" using assms(1) by (intro binade_upper) simp_all
  then show "\<lfloor>log 2 (real n)\<rfloor> \<le> 52" by simp
qed

lemma ulp_nat:
  assumes "0 < n" "n < 2 ^ 53"
  shows "\<exists>k. ulp (real n) = 1 / 2 ^ k"
proof -
  define e where "e = \<lfloor>log 2 (real n)\<rfloor>"
  have e: "0 \<le> e" "e \<le> 52" unfolding e_def using binade_nat [OF assms] by simp_all
  define k where "k = nat (52 - e)"
  have m: "max e (- 1022) - 52 = - int k" using e by (simp add: k_def)
  have "(2::real) powr of_int (- int k) = inverse (2 powr real k)"
    by (simp add: powr_minus)
  also have "\<dots> = 1 / 2 ^ k" by (simp add: powr_realpow inverse_eq_divide)
  finally have "ulp (real n) = 1 / 2 ^ k"
    unfolding ulp_def using m by (simp add: e_def)
  then show ?thesis ..
qed

lemma fl_nat:
  assumes "n < 2 ^ 53"
  shows "fl (real n) = Fin (real n)"
proof (cases "n = 0")
  case True
  then show ?thesis by (simp add: fl_0)
next
  case False
  then have pos: "0 < n" by simp
  obtain k where q: "ulp (real n) = 1 / 2 ^ k" using ulp_nat [OF pos assms] ..
  have "\<bar>real n\<bar> / ulp (real n) = of_int (int n * 2 ^ k)" by (simp add: q)
  then have r: "of_int (round_even (\<bar>real n\<bar> / ulp (real n))) * ulp (real n) = real n"
    by (simp only: round_even_int) (simp add: q)
  have "real n < 2 ^ 53" using assms by (metis of_nat_less_iff of_nat_numeral of_nat_power)
  then have b: "\<not> 2 ^ 1024 \<le> real n" by simp
  show ?thesis
    unfolding fl_def Let_def r using False b by simp
qed



lemma ulp_pos: "0 < ulp v"
  by (simp add: ulp_def)

lemma ulp_le:
  assumes "v \<noteq> 0"
  shows "ulp v \<le> \<bar>v\<bar> / 2 ^ 52 + 1 / 2 ^ 1074"
proof -
  define e where "e = \<lfloor>log 2 \<bar>v\<bar>\<rfloor>"
  have u: "ulp v = 2 powr of_int (max e (- 1022) - 52)" by (simp only: ulp_def e_def)
  show ?thesis
  proof (cases "- 1022 \<le> e")
    case True
    then have "max e (- 1022) - 52 = e - 52" by simp
    then have "ulp v = 2 powr (of_int e - 52)" unfolding u by simp
    also have "\<dots> = 2 powr of_int e / 2 powr 52" by (rule powr_diff)
    also have "\<dots> \<le> \<bar>v\<bar> / 2 powr 52"
      unfolding e_def using binade_le [of "\<bar>v\<bar>"] assms by (intro divide_right_mono) simp_all
    also have "\<dots> = \<bar>v\<bar> / 2 ^ 52" by simp
    finally have "ulp v \<le> \<bar>v\<bar> / 2 ^ 52" .
    moreover have "(0::real) \<le> 1 / 2 ^ 1074" by simp
    ultimately show ?thesis by linarith
  next
    case False
    then have "max e (- 1022) - 52 = - 1074" by simp
    then have "ulp v = 2 powr of_int (- 1074)" unfolding u by simp
    also have "\<dots> = inverse (2 powr 1074)" by (simp add: powr_minus)
    also have "\<dots> = 1 / 2 ^ 1074" by (simp add: inverse_eq_divide)
    finally have "ulp v = 1 / 2 ^ 1074" .
    moreover have "0 \<le> \<bar>v\<bar> / 2 ^ 52" by simp
    ultimately show ?thesis by linarith
  qed
qed

lemma fl_near:
  assumes "\<bar>v\<bar> \<le> 2 ^ 1023"
  shows "\<exists>a. fl v = Fin a \<and> \<bar>a - v\<bar> \<le> \<bar>v\<bar> / 2 ^ 53 + 1 / 2 ^ 1075"
proof (cases "v = 0")
  case True
  then show ?thesis by (simp add: fl_0)
next
  case False
  define q where "q = ulp v"
  define N where "N = round_even (\<bar>v\<bar> / q)"
  define r where "r = of_int N * q"
  have q0: "0 < q" unfolding q_def by (rule ulp_pos)
  have "r - \<bar>v\<bar> = (of_int N - \<bar>v\<bar> / q) * q" using q0 by (simp add: r_def field_simps)
  then have "\<bar>r - \<bar>v\<bar>\<bar> = \<bar>of_int N - \<bar>v\<bar> / q\<bar> * q" using q0 by (simp add: abs_mult)
  also have "\<dots> \<le> 1 / 2 * q"
    unfolding N_def using round_even_near [of "\<bar>v\<bar> / q"] q0 by (intro mult_right_mono) simp_all
  finally have d: "\<bar>r - \<bar>v\<bar>\<bar> \<le> q / 2" by simp
  have ql: "q \<le> \<bar>v\<bar> / 2 ^ 52 + 1 / 2 ^ 1074" unfolding q_def by (rule ulp_le [OF False])
  have "q / 2 \<le> (\<bar>v\<bar> / 2 ^ 52 + 1 / 2 ^ 1074) / 2" using ql by simp
  also have "\<dots> = \<bar>v\<bar> / 2 ^ 53 + 1 / 2 ^ 1075" by simp
  finally have e: "\<bar>r - \<bar>v\<bar>\<bar> \<le> \<bar>v\<bar> / 2 ^ 53 + 1 / 2 ^ 1075" using d by linarith
  have "\<bar>v\<bar> / 2 ^ 53 \<le> 2 ^ 1023 / 2 ^ 53" using assms by (intro divide_right_mono) simp_all
  then have "\<bar>v\<bar> + (\<bar>v\<bar> / 2 ^ 53 + 1 / 2 ^ 1075) < 2 ^ 1024" using assms by simp
  then have small: "\<not> 2 ^ 1024 \<le> r" using e by linarith
  have f: "fl v = Fin (sgn v * r)"
    using False small by (simp add: fl_def Let_def q_def r_def N_def)
  have "\<bar>sgn v * r - v\<bar> = \<bar>r - \<bar>v\<bar>\<bar>"
    using False by (cases "0 < v") (simp_all add: sgn_if)
  then show ?thesis using f e by simp
qed

lemma fl_1: "fl 1 = Fin 1"
  using fl_nat [of 1] by simp

lemma fl_numeral: "numeral k < (2::nat) ^ 53 \<Longrightarrow> fl (numeral k) = Fin (numeral k)"
  using fl_nat [of "numeral k"] by simp

text \<open>Up to 4 in magnitude, a rounded value is finite and within a thousandth.\<close>

lemma fl_small:
  assumes "\<bar>v\<bar> \<le> 4"
  shows "\<exists>a. fl v = Fin a \<and> \<bar>a - v\<bar> \<le> 1 / 1000"
proof -
  have "\<bar>v\<bar> \<le> 2 ^ 1023" using assms by simp
  then obtain a where a: "fl v = Fin a" "\<bar>a - v\<bar> \<le> \<bar>v\<bar> / 2 ^ 53 + 1 / 2 ^ 1075"
    using fl_near by blast
  have "\<bar>v\<bar> / 2 ^ 53 \<le> 4 / 2 ^ 53" using assms by (intro divide_right_mono) simp_all
  then have "\<bar>v\<bar> / 2 ^ 53 + 1 / 2 ^ 1075 \<le> 1 / 1000" by simp
  then show ?thesis using a by force
qed








section \<open>The seeded generator (Mulberry32)\<close>

text \<open>
  The closure variable \<open>t\<close> is a number that starts at \<open>seed >>> 0\<close> and grows by
  \<open>0x6D2B79F5\<close> at each call; it is never reduced, and the bitwise operators read it
  modulo \<open>2^32\<close>. The model keeps \<open>t\<close> as a natural number (exact as long as the
  double is, below \<open>2^53\<close>) and does the 32-bit arithmetic on words. \<open>Math.imul\<close> is
  the product of words; \<open>r + Math.imul(...)\<close> is exact on numbers and read modulo
  \<open>2^32\<close> by the \<open>^\<close> that follows, which is the sum of words.
\<close>

definition mix :: "32 word \<Rightarrow> 32 word" where
  "mix t =
     (let r = (t XOR drop_bit 15 t) * (1 OR t);
          r = r XOR (r + (r XOR drop_bit 7 r) * (61 OR r))
      in r XOR drop_bit 14 r)"

text \<open>One call of the closure: the value returned, in \<open>[0,1)\<close>, and the new \<open>t\<close>.\<close>

definition rng :: "nat \<Rightarrow> real \<times> nat" where
  "rng t =
     (let t = t + 0x6D2B79F5
      in (real (unat (mix (word_of_nat t))) / 4294967296, t))"

definition mulberry32 :: "int \<Rightarrow> nat" where
  "mulberry32 seed = unat (word_of_int seed :: 32 word)"


subsection \<open>The generator never returns zero twice in a row\<close>

lemma drop_bit_fixed:
  fixes w :: "32 word"
  assumes "0 < k" "drop_bit k w = w"
  shows "w = 0"
proof (rule ccontr)
  assume "w \<noteq> 0"
  then have pos: "0 < unat w" by (simp add: unat_gt_0)
  have big: "(1::nat) < 2 ^ k" using one_less_power [of "2::nat" k] assms(1) by simp
  have "unat (drop_bit k w) = drop_bit k (unat w)" by (rule unat_drop_bit_eq)
  also have "\<dots> = unat w div 2 ^ k" by (rule drop_bit_eq_div)
  also have "\<dots> < unat w" by (rule div_less_dividend [OF big pos])
  finally show False using assms(2) by simp
qed

lemma xor_self_zero: "(a XOR b = 0) \<longleftrightarrow> (a = (b::32 word))"
  by (metis bit.xor_left_self xor.right_neutral)

lemma xor_drop_zero: "0 < k \<Longrightarrow> (w XOR drop_bit k w = 0) \<longleftrightarrow> (w = (0::32 word))"
  using drop_bit_fixed [of k w] by (auto simp: xor_self_zero)

lemma odd_unat: "odd (b :: 32 word) \<Longrightarrow> odd (unat b)"
  by (metis even_of_nat mult.right_neutral unsigned_1 word_arith_nat_mult)

lemma odd_mult_zero:
  fixes a b :: "32 word"
  assumes "odd b"
  shows "(a * b = 0) \<longleftrightarrow> (a = 0)"
proof
  assume "a * b = 0"
  then have "unat (a * b) = 0" by simp
  then have "(unat a * unat b) mod 2 ^ 32 = 0" by (simp add: unat_word_ariths)
  then have d: "(2::nat) ^ 32 dvd unat a * unat b" by (simp add: dvd_eq_mod_eq_0)
  have "odd (unat b)" using assms by (rule odd_unat)
  then have "coprime (2::nat) (unat b)" by simp
  then have "coprime ((2::nat) ^ 32) (unat b)" by (simp only: coprime_power_left_iff simp_thms)
  with d have "(2::nat) ^ 32 dvd unat a" by (simp only: coprime_dvd_mult_left_iff)
  moreover have "unat a < 2 ^ 32" using unsigned_less [of a, where 'a=nat] by simp
  ultimately have "unat a = 0" by (meson dvd_imp_le not_le neq0_conv)
  then show "a = 0" by (simp add: unat_eq_0)
qed simp

lemma odd_or1: "odd ((1::32 word) OR t)"
  by (simp add: even_or_iff)

lemma odd_or61: "odd ((61::32 word) OR t)"
  by (simp add: even_or_iff)

lemma xor_add_zero: "(r XOR (r + m) = 0) \<longleftrightarrow> (m = (0::32 word))"
  by (metis add_cancel_left_right bit.xor_left_self xor.right_neutral)

text \<open>Each mixing round is a bijection fixing zero, so the output is zero only at \<open>t = 0\<close>.\<close>

lemma mix_zero: "mix t = 0 \<longleftrightarrow> t = 0"
proof -
  define r1 where "r1 = (t XOR drop_bit 15 t) * (1 OR t)"
  define r2 where "r2 = r1 XOR (r1 + (r1 XOR drop_bit 7 r1) * (61 OR r1))"
  have m: "mix t = r2 XOR drop_bit 14 r2" by (simp only: mix_def Let_def r1_def r2_def)
  have "mix t = 0 \<longleftrightarrow> r2 = 0" unfolding m by (rule xor_drop_zero) simp
  also have "\<dots> \<longleftrightarrow> (r1 XOR drop_bit 7 r1) * (61 OR r1) = 0"
    unfolding r2_def by (rule xor_add_zero)
  also have "\<dots> \<longleftrightarrow> r1 XOR drop_bit 7 r1 = 0" by (rule odd_mult_zero [OF odd_or61])
  also have "\<dots> \<longleftrightarrow> r1 = 0" by (rule xor_drop_zero) simp
  also have "\<dots> \<longleftrightarrow> t XOR drop_bit 15 t = 0"
    unfolding r1_def by (rule odd_mult_zero [OF odd_or1])
  also have "\<dots> \<longleftrightarrow> t = 0" by (rule xor_drop_zero) simp
  finally show ?thesis .
qed

lemma rng_zero: "fst (rng t) = 0 \<longleftrightarrow> (word_of_nat (t + 0x6D2B79F5) :: 32 word) = 0"
  by (simp add: rng_def Let_def mix_zero unsigned_eq_0_iff)

lemma rng_snd: "snd (rng t) = t + 0x6D2B79F5"
  by (simp add: rng_def Let_def)

lemma rng_twice: "fst (rng t) = 0 \<Longrightarrow> fst (rng (snd (rng t))) \<noteq> 0"
proof
  assume a: "fst (rng t) = 0" and b: "fst (rng (snd (rng t))) = 0"
  from a have a': "(word_of_nat (t + 0x6D2B79F5) :: 32 word) = 0" by (simp only: rng_zero)
  from b have "(word_of_nat ((t + 0x6D2B79F5) + 0x6D2B79F5) :: 32 word) = 0"
    by (simp only: rng_zero rng_snd)
  then have "(word_of_nat (t + 0x6D2B79F5) :: 32 word) + 0x6D2B79F5 = 0" by simp
  with a' show False by simp
qed

section \<open>The Gaussian sampler (Box-Muller)\<close>

text \<open>
  \<open>let u = 0; while (u === 0) u = rng();\<close>: draw until the value is not zero. The
  result is the value and the generator's new \<open>t\<close>. The loop ends after at most two
  draws, by \<open>rng_twice\<close>.
\<close>

function draw :: "nat \<Rightarrow> real \<times> nat" where
  "draw t = (if fst (rng t) = 0 then draw (snd (rng t)) else rng t)"
  by pat_completeness auto
termination
  by (relation "measure (\<lambda>t. if fst (rng t) = 0 then 1 else 0)") (auto dest: rng_twice)

declare draw.simps [simp del]

text \<open>\<open>Math.sqrt\<close>, \<open>Math.log\<close> and \<open>Math.cos\<close> are the real functions.\<close>

definition randn :: "nat \<Rightarrow> real \<times> nat" where
  "randn t =
     (let (u, t) = draw t;
          (v, t) = draw t;
          mag = sqrt (- 2.0 * ln u);
          z0 = mag * cos (2.0 * pi * v)
      in (z0, t))"

section \<open>The dataset generator\<close>

record point =
  x1 :: number
  x2 :: number
  y :: number

definition means :: "nat \<Rightarrow> real \<times> real" where
  "means c = (if c = 0 then (3.0, 3.5) else (7.0, 6.5))"

definition std :: real where
  "std = 1.1"

text \<open>
  One turn of the loop body of \<open>generateData\<close> at index \<open>i\<close>: the point pushed and the
  generator's new \<open>t\<close>. The size \<open>n\<close> and the index range over the integers. The
  decimal literals of the means and of the spread are rounded by \<open>fl\<close>.
\<close>

definition gen_point :: "int \<Rightarrow> int \<Rightarrow> nat \<Rightarrow> point \<times> nat" where
  "gen_point n i t =
     (let c = (if real_of_int i < real_of_int n / 2 then 0 else 1);
          m = means c;
          (z, t) = randn t;
          a1 = js_add (fl (fst m)) (js_mul (fl std) (Fin z));
          (z, t) = randn t;
          a2 = js_add (fl (snd m)) (js_mul (fl std) (Fin z));
          a1 = Math_min [Fin 10, Math_max [Fin 0, a1]];
          a2 = Math_min [Fin 10, Math_max [Fin 0, a2]]
      in (\<lparr>x1 = a1, x2 = a2, y = Fin (real c)\<rparr>, t))"

text \<open>The same body in the variant of the program (\<open>src/unnamed/part_000\<close>): other
  means and spread, and no clamping.\<close>

definition means_v :: "nat \<Rightarrow> real \<times> real" where
  "means_v c = (if c = 0 then (- 1.0, - 0.5) else (1.1, 0.7))"

definition std_v :: real where
  "std_v = 0.8"

definition gen_point_v :: "int \<Rightarrow> int \<Rightarrow> nat \<Rightarrow> point \<times> nat" where
  "gen_point_v n i t =
     (let c = (if real_of_int i < real_of_int n / 2 then 0 else 1);
          m = means_v c;
          (z, t) = randn t;
          a1 = js_add (fl (fst m)) (js_mul (fl std_v) (Fin z));
          (z, t) = randn t;
          a2 = js_add (fl (snd m)) (js_mul (fl std_v) (Fin z))
      in (\<lparr>x1 = a1, x2 = a2, y = Fin (real c)\<rparr>, t))"

text \<open>\<open>for (let i = 0; i < n; i++) { ...; data.push({ x1, x2, y }); }\<close>, from index
  \<open>i\<close> on, for either body.\<close>

function gen_loop ::
  "(int \<Rightarrow> int \<Rightarrow> nat \<Rightarrow> point \<times> nat) \<Rightarrow> int \<Rightarrow> int \<Rightarrow> nat \<Rightarrow> point list \<Rightarrow> point list"
where
  "gen_loop body n i t data =
     (if i < n
      then gen_loop body n (i + 1) (snd (body n i t)) (data @ [fst (body n i t)])
      else data)"
  by pat_completeness auto
termination
  by (relation "measure (\<lambda>(body, n, i, t, data). nat (n - i))") auto

definition generateData :: "int \<Rightarrow> int \<Rightarrow> point list" where
  "generateData n seed = gen_loop gen_point n 0 (mulberry32 seed) []"

definition generateData_v :: "int \<Rightarrow> int \<Rightarrow> point list" where
  "generateData_v n seed = gen_loop gen_point_v n 0 (mulberry32 seed) []"


declare gen_loop.simps [simp del]

definition count_label :: "real \<Rightarrow> point list \<Rightarrow> nat" where
  "count_label c ds = length (filter (\<lambda>p. y p = Fin c) ds)"

definition in_box :: "point \<Rightarrow> bool" where
  "in_box p =
     (\<exists>a b. x1 p = Fin a \<and> 0 \<le> a \<and> a \<le> 10 \<and> x2 p = Fin b \<and> 0 \<le> b \<and> b \<le> 10)"

subsection \<open>The loop\<close>

lemma gen_loop_step:
  "i < n \<Longrightarrow> gen_loop body n i t data =
     gen_loop body n (i + 1) (snd (body n i t)) (data @ [fst (body n i t)])"
  by (subst gen_loop.simps) simp

lemma gen_loop_done: "\<not> i < n \<Longrightarrow> gen_loop body n i t data = data"
  by (subst gen_loop.simps) simp

lemma gen_loop_length: "length (gen_loop body n i t data) = length data + nat (n - i)"
proof (induction "nat (n - i)" arbitrary: i t data)
  case 0
  then show ?case by (simp add: gen_loop_done)
next
  case (Suc k)
  then have lt: "i < n" and k: "k = nat (n - (i + 1))" by linarith+
  show ?case using Suc.hyps(1) [OF k] Suc.hyps(2) by (simp add: gen_loop_step [OF lt])
qed

lemma gen_loop_all:
  assumes "\<And>i t. P (fst (body n i t))" and "list_all P data"
  shows "list_all P (gen_loop body n i t data)"
  using assms(2)
proof (induction "nat (n - i)" arbitrary: i t data)
  case 0
  then show ?case by (simp add: gen_loop_done)
next
  case (Suc k)
  then have lt: "i < n" and k: "k = nat (n - (i + 1))" by linarith+
  have "list_all P (data @ [fst (body n i t)])" using Suc.prems assms(1) by simp
  from Suc.hyps(1) [OF k this] show ?case by (simp add: gen_loop_step [OF lt])
qed

text \<open>\<open>i < n / 2\<close> on integers: \<open>i\<close> is below the half rounded up.\<close>

lemma label_cond: "(real_of_int i < real_of_int n / 2) \<longleftrightarrow> i < (n + 1) div 2"
proof -
  have "(real_of_int i < real_of_int n / 2) \<longleftrightarrow> real_of_int (2 * i) < real_of_int n"
    by (simp add: field_simps)
  also have "\<dots> \<longleftrightarrow> 2 * i < n" by (simp only: of_int_less_iff)
  also have "\<dots> \<longleftrightarrow> i < (n + 1) div 2" by linarith
  finally show ?thesis .
qed

lemma gen_loop_labels:
  assumes b: "\<And>i t. y (fst (body n i t)) =
      Fin (real (if real_of_int i < real_of_int n / 2 then 0 else 1))"
    and "0 \<le> i"
  shows "map y (gen_loop body n i t data) =
     map y data @ replicate (nat ((n + 1) div 2 - i)) (Fin 0)
       @ replicate (nat (n - max i ((n + 1) div 2))) (Fin 1)"
  using assms(2)
proof (induction "nat (n - i)" arbitrary: i t data)
  case 0
  then have "\<not> i < n" and "(n + 1) div 2 \<le> i" by linarith+
  then show ?case by (simp add: gen_loop_done)
next
  case (Suc k)
  let ?h = "(n + 1) div 2"
  let ?p = "fst (body n i t)"
  from Suc have lt: "i < n" and k: "k = nat (n - (i + 1))" and i1: "0 \<le> i + 1"
    by linarith+
  have ih: "map y (gen_loop body n i t data) =
       map y data @ y ?p # replicate (nat (?h - (i + 1))) (Fin 0)
         @ replicate (nat (n - max (i + 1) ?h)) (Fin 1)"
    using Suc.hyps(1) [OF k i1] by (simp add: gen_loop_step [OF lt])
  show ?case
  proof (cases "i < ?h")
    case True
    then have l: "y ?p = Fin 0" by (simp add: b label_cond)
    from True have "nat (?h - i) = Suc (nat (?h - (i + 1)))" by linarith
    moreover from True have "max (i + 1) ?h = max i ?h" by simp
    ultimately show ?thesis unfolding ih l by simp
  next
    case False
    then have l: "y ?p = Fin 1" by (simp add: b label_cond)
    from False lt have "nat (n - max i ?h) = Suc (nat (n - max (i + 1) ?h))" by linarith
    moreover from False have "nat (?h - i) = 0" "nat (?h - (i + 1)) = 0" by linarith+
    ultimately show ?thesis unfolding ih l by simp
  qed
qed

lemma clamp_range:
  "x \<noteq> NaN \<Longrightarrow> \<exists>c. Math_min [Fin 10, Math_max [Fin 0, x]] = Fin c \<and> 0 \<le> c \<and> c \<le> 10"
  by (cases x) (auto simp add: Math_min_def Math_max_def min2_def max2_def)

lemma fl_finite: "\<bar>v\<bar> \<le> 2 ^ 1023 \<Longrightarrow> \<exists>a. fl v = Fin a"
  using fl_near by blast

lemma js_add_Fin_not_NaN: "x \<noteq> NaN \<Longrightarrow> js_add (Fin a) x \<noteq> NaN"
  by (cases x) (simp_all add: fl_not_NaN)

text \<open>A coordinate, clamped: the sample is never NaN, so the result is in the box.\<close>

lemma coord_in_box:
  assumes "\<bar>m\<bar> \<le> 2 ^ 1023" "\<bar>s\<bar> \<le> 2 ^ 1023"
  shows "\<exists>c. Math_min [Fin 10, Math_max [Fin 0, js_add (fl m) (js_mul (fl s) (Fin z))]] = Fin c
           \<and> 0 \<le> c \<and> c \<le> 10"
proof -
  obtain m' where m: "fl m = Fin m'" using fl_finite [OF assms(1)] ..
  obtain s' where s: "fl s = Fin s'" using fl_finite [OF assms(2)] ..
  have "js_mul (fl s) (Fin z) \<noteq> NaN" by (simp add: s fl_not_NaN)
  then have "js_add (fl m) (js_mul (fl s) (Fin z)) \<noteq> NaN"
    unfolding m by (rule js_add_Fin_not_NaN)
  then show ?thesis by (rule clamp_range)
qed

lemma gen_point_y:
  "y (fst (gen_point n i t)) = Fin (real (if real_of_int i < real_of_int n / 2 then 0 else 1))"
  by (simp add: gen_point_def Let_def split: prod.splits)

lemma gen_point_v_y:
  "y (fst (gen_point_v n i t)) = Fin (real (if real_of_int i < real_of_int n / 2 then 0 else 1))"
  by (simp add: gen_point_v_def Let_def split: prod.splits)

lemma gen_point_box: "in_box (fst (gen_point n i t))"
proof -
  obtain z1 t1 where r1: "randn t = (z1, t1)" by (cases "randn t")
  obtain z2 t2 where r2: "randn t1 = (z2, t2)" by (cases "randn t1")
  define c :: nat where "c = (if real_of_int i < real_of_int n / 2 then 0 else 1)"
  have m: "\<bar>fst (means c)\<bar> \<le> 2 ^ 1023" "\<bar>snd (means c)\<bar> \<le> 2 ^ 1023"
    by (simp_all add: means_def)
  have s: "\<bar>std\<bar> \<le> 2 ^ 1023" by (simp add: std_def)
  obtain a where a:
    "Math_min [Fin 10, Math_max [Fin 0, js_add (fl (fst (means c))) (js_mul (fl std) (Fin z1))]]
       = Fin a" "0 \<le> a" "a \<le> 10"
    using coord_in_box [OF m(1) s] by blast
  obtain b where b:
    "Math_min [Fin 10, Math_max [Fin 0, js_add (fl (snd (means c))) (js_mul (fl std) (Fin z2))]]
       = Fin b" "0 \<le> b" "b \<le> 10"
    using coord_in_box [OF m(2) s] by blast
  have "fst (gen_point n i t) =
      \<lparr>x1 = Math_min [Fin 10,
              Math_max [Fin 0, js_add (fl (fst (means c))) (js_mul (fl std) (Fin z1))]],
       x2 = Math_min [Fin 10,
              Math_max [Fin 0, js_add (fl (snd (means c))) (js_mul (fl std) (Fin z2))]],
       y = Fin (real c)\<rparr>"
    by (simp add: gen_point_def Let_def r1 r2 c_def)
  then have "fst (gen_point n i t) = \<lparr>x1 = Fin a, x2 = Fin b, y = Fin (real c)\<rparr>"
    by (simp only: a(1) b(1))
  then show ?thesis using a b by (simp add: in_box_def)
qed

lemma generateData_labels:
  "map y (generateData n seed) =
     replicate (nat ((n + 1) div 2)) (Fin 0) @ replicate (nat (n div 2)) (Fin 1)"
proof -
  have "n - max 0 ((n + 1) div 2) = n div 2 \<or> (n < 0 \<and> n - max 0 ((n + 1) div 2) < 0)"
    by linarith
  then have "nat (n - max 0 ((n + 1) div 2)) = nat (n div 2)" by auto
  then show ?thesis
    using gen_loop_labels [of gen_point n 0 "mulberry32 seed" "[]", OF gen_point_y]
    by (simp add: generateData_def)
qed

lemma generateData_length: "length (generateData n seed) = nat n"
  by (simp add: generateData_def gen_loop_length)

lemma count_label_replicate:
  "count_label c (ds :: point list) = length (filter (\<lambda>v. v = Fin c) (map y ds))"
  by (simp add: count_label_def filter_map comp_def)


subsection \<open>Labels\<close>

text \<open>
  Claim C4, as stated: \<open>generate(n, seed)\<close> has exactly \<open>floor(n/2)\<close> points with label 0.
  The test \<open>i < n / 2\<close> is on numbers, not integers, so for an odd \<open>n\<close> the middle
  index still gets label 0: at \<open>n = 3\<close> two points have label 0, and \<open>floor(3/2) = 1\<close>.
\<close>

theorem C4_labels_counterexample: "count_label 0 (generateData 3 42) \<noteq> nat (3 div 2)"
  by (simp add: count_label_replicate generateData_labels)

text \<open>
  Claim C4, amended: for every \<open>n\<close> and seed, the labels of \<open>generateData n seed\<close>, in
  order, are \<open>ceiling(n/2)\<close> zeros followed by \<open>floor(n/2)\<close> ones: every label-0 point
  precedes every label-1 point, exactly \<open>ceiling(n/2)\<close> points have label 0 and
  \<open>floor(n/2)\<close> have label 1 (the two counts agree when \<open>n\<close> is even).
\<close>

theorem C4_labels:
  "map y (generateData n seed) =
     replicate (nat ((n + 1) div 2)) (Fin 0) @ replicate (nat (n div 2)) (Fin 1)
   \<and> count_label 0 (generateData n seed) = nat ((n + 1) div 2)
   \<and> count_label 1 (generateData n seed) = nat (n div 2)"
proof (intro conjI)
  show "map y (generateData n seed) =
     replicate (nat ((n + 1) div 2)) (Fin 0) @ replicate (nat (n div 2)) (Fin 1)"
    by (rule generateData_labels)
  show "count_label 0 (generateData n seed) = nat ((n + 1) div 2)"
    by (simp add: count_label_replicate generateData_labels)
  show "count_label 1 (generateData n seed) = nat (n div 2)"
    by (simp add: count_label_replicate generateData_labels)
qed

subsection \<open>The size\<close>

text \<open>
  Claim C6, as stated: a negative \<open>n\<close> is rejected with an error and no dataset is
  produced. \<open>generateData\<close> has no check on \<open>n\<close> and no statement that throws: at
  \<open>n = -1\<close> the loop does not run and the empty dataset is returned, as at \<open>n = 0\<close>.
\<close>

theorem C6_negative_counterexample:
  "generateData (- 1) 42 = [] \<and> generateData (- 1) 42 = generateData 0 42"
  by (simp add: generateData_def gen_loop_done)

text \<open>
  Claim C6, amended: the generator does not validate \<open>n\<close>. It returns a dataset for
  every integer \<open>n\<close>, of \<open>n\<close> points when \<open>n\<close> is not negative; a negative \<open>n\<close> yields
  the empty dataset, as \<open>n = 0\<close> does, and no error.
\<close>

theorem C6_no_validation:
  "length (generateData n seed) = nat n \<and> (n \<le> 0 \<longrightarrow> generateData n seed = [])"
proof
  show "length (generateData n seed) = nat n" by (rule generateData_length)
  show "n \<le> 0 \<longrightarrow> generateData n seed = []"
    by (simp add: generateData_def gen_loop_done)
qed

theorem C6_no_validation_witness:
  "(- 5 :: int) \<le> 0 \<and> generateData (- 5) 42 = [] \<and> length (generateData 0 42) = nat 0"
  using C6_no_validation [of "- 5" 42] C6_no_validation [of 0 42] by simp

subsection \<open>Clamping\<close>

text \<open>The first point of the variant's dataset for the seed of the page, 123: its first
  coordinate is negative.\<close>

lemma mix_123: "mix (word_of_nat (123 + 0x6D2B79F5)) = 3381219976"
  by (simp add: mix_def Let_def)

lemma rng_123: "rng 123 = (3381219976 / 4294967296, 1831565936)"
  by (simp add: rng_def Let_def mix_123 [simplified])

lemma draw_123: "draw 123 = (3381219976 / 4294967296, 1831565936)"
  by (subst draw.simps) (simp add: rng_123)

lemma gen_loop_prefix: "\<exists>rest. gen_loop body n i t data = data @ rest"
proof (induction "nat (n - i)" arbitrary: i t data)
  case 0
  then show ?case by (simp add: gen_loop_done)
next
  case (Suc k)
  then have lt: "i < n" and k: "k = nat (n - (i + 1))" by linarith+
  from Suc.hyps(1) [OF k, of "snd (body n i t)" "data @ [fst (body n i t)]"]
  show ?case by (auto simp add: gen_loop_step [OF lt])
qed

lemma hd_generateData_v: "hd (generateData_v 200 123) = fst (gen_point_v 200 0 123)"
proof -
  have m: "mulberry32 123 = 123" by (simp add: mulberry32_def)
  obtain rest where
    "gen_loop gen_point_v 200 1 (snd (gen_point_v 200 0 123)) [fst (gen_point_v 200 0 123)]
       = [fst (gen_point_v 200 0 123)] @ rest"
    using gen_loop_prefix by blast
  then show ?thesis
    by (simp add: generateData_v_def m gen_loop_step [of 0 200])
qed

lemma ln_lower: "0 < u \<Longrightarrow> 1 - 1 / u \<le> ln (u::real)"
proof -
  assume u: "0 < u"
  then have "ln (1 / u) \<le> 1 / u - 1" by (intro ln_le_minus_one) simp
  moreover have "ln (1 / u) = - ln u" using u by (simp add: ln_div)
  ultimately show ?thesis by simp
qed

lemma mag_small: "sqrt (- 2.0 * ln (3381219976 / 4294967296 :: real)) < 1"
proof -
  have "1 - 1 / (3381219976 / 4294967296) \<le> ln (3381219976 / 4294967296 :: real)"
    by (rule ln_lower) simp
  then have "- 2.0 * ln (3381219976 / 4294967296 :: real) < 1" by simp
  then show ?thesis by (simp add: real_sqrt_lt_1_iff)
qed

lemma variant_unclamped: "\<exists>a. x1 (hd (generateData_v 200 123)) = Fin a \<and> a < 0"
proof -
  obtain v t where d: "draw 1831565936 = (v, t)" by (cases "draw 1831565936")
  define mag where "mag = sqrt (- 2.0 * ln (3381219976 / 4294967296 :: real))"
  define z where "z = mag * cos (2.0 * pi * v)"
  have r: "randn 123 = (z, t)"
    by (simp add: randn_def draw_123 d Let_def z_def mag_def)
  have m1: "mag < 1" unfolding mag_def by (rule mag_small)
  have m0: "0 \<le> mag" unfolding mag_def by simp
  have "\<bar>z\<bar> = mag * \<bar>cos (2.0 * pi * v)\<bar>" unfolding z_def using m0 by (simp add: abs_mult)
  also have "\<dots> \<le> mag * 1" using m0 by (intro mult_left_mono) simp_all
  finally have z: "\<bar>z\<bar> \<le> 1" using m1 by simp
  obtain z2 t2 where r2: "randn t = (z2, t2)" by (cases "randn t")
  obtain s where s: "fl (8 / 10) = Fin s" "\<bar>s - 8 / 10\<bar> \<le> 1 / 1000"
    using fl_small [of "8 / 10"] by auto
  obtain m where m: "fl (- 1) = Fin m" "\<bar>m - (- 1)\<bar> \<le> 1 / 1000"
    using fl_small [of "- 1"] by auto
  have s': "\<bar>s\<bar> \<le> 801 / 1000" using s(2) by linarith
  have "\<bar>s * z\<bar> = \<bar>s\<bar> * \<bar>z\<bar>" by (rule abs_mult)
  also have "\<dots> \<le> (801 / 1000) * 1" using s' z by (intro mult_mono) simp_all
  finally have sz: "\<bar>s * z\<bar> \<le> 801 / 1000" by simp
  obtain p where p: "fl (s * z) = Fin p" "\<bar>p - s * z\<bar> \<le> 1 / 1000"
    using fl_small [of "s * z"] sz by auto
  have mp: "m + p \<le> - 197 / 1000" "- 2 \<le> m + p" using m(2) p(2) sz by linarith+
  obtain a where a: "fl (m + p) = Fin a" "\<bar>a - (m + p)\<bar> \<le> 1 / 1000"
    using fl_small [of "m + p"] mp by auto
  have "x1 (fst (gen_point_v 200 0 123)) = Fin a"
    using s(1) m(1) p(1) a(1)
    by (simp add: gen_point_v_def r r2 Let_def means_v_def std_v_def)
  moreover have "a < 0" using a(2) mp(1) by linarith
  ultimately show ?thesis by (simp add: hd_generateData_v)
qed

text \<open>
  Claim C10: in the generator of \<open>src/app.js\<close>, for every \<open>n\<close> and seed, both coordinates
  of every generated point are finite numbers in \<open>[0, 10]\<close>. The variant does not clamp:
  the first point of its dataset for the seed 123 has a negative first coordinate.
\<close>

theorem C10_clamped:
  "(\<forall>p \<in> set (generateData n seed).
     \<exists>a b. x1 p = Fin a \<and> 0 \<le> a \<and> a \<le> 10 \<and> x2 p = Fin b \<and> 0 \<le> b \<and> b \<le> 10)
   \<and> (\<exists>a. x1 (hd (generateData_v 200 123)) = Fin a \<and> a < 0)"
proof
  have "list_all in_box (generateData n seed)"
    unfolding generateData_def
    by (rule gen_loop_all [of in_box gen_point]) (simp_all add: gen_point_box)
  then show "\<forall>p \<in> set (generateData n seed).
     \<exists>a b. x1 p = Fin a \<and> 0 \<le> a \<and> a \<le> 10 \<and> x2 p = Fin b \<and> 0 \<le> b \<and> b \<le> 10"
    by (simp add: list_all_iff in_box_def)
  show "\<exists>a. x1 (hd (generateData_v 200 123)) = Fin a \<and> a < 0"
    by (rule variant_unclamped)
qed

theorem C10_clamped_witness:
  "hd (generateData 2 42) \<in> set (generateData 2 42) \<and>
   (\<exists>a b. x1 (hd (generateData 2 42)) = Fin a \<and> 0 \<le> a \<and> a \<le> 10 \<and>
      x2 (hd (generateData 2 42)) = Fin b \<and> 0 \<le> b \<and> b \<le> 10)"
proof -
  have "length (generateData 2 42) = 2" by (simp add: generateData_length)
  then have "generateData 2 42 \<noteq> []" by auto
  then have "hd (generateData 2 42) \<in> set (generateData 2 42)" by simp
  then show ?thesis using C10_clamped [of 2 42] by blast
qed

section \<open>Strings\<close>

text \<open>
  A string is the list of its code units, which range over \<open>0..255\<close> here. The white
  space of \<open>trim\<close>, of \<open>parseFloat\<close> and of \<open>\s\<close> in a regular expression is the same
  set: tab, line feed, vertical tab, form feed, carriage return, space and the
  no-break space.
\<close>

definition LF :: char where
  "LF = CHR 0x0A"

definition CR :: char where
  "CR = CHR 0x0D"

definition is_space :: "char \<Rightarrow> bool" where
  "is_space c = (c \<in> set [CHR 0x09, CHR 0x0A, CHR 0x0B, CHR 0x0C, CHR 0x0D, CHR 0x20, CHR 0xA0])"

definition trim :: "string \<Rightarrow> string" where
  "trim s = rev (dropWhile is_space (rev (dropWhile is_space s)))"

text \<open>\<open>toLowerCase\<close>: the letters \<open>A-Z\<close> and the upper-case letters of Latin-1 move up by 32.\<close>

definition lower_char :: "char \<Rightarrow> char" where
  "lower_char c =
     (let k = (of_char c :: nat)
      in if (65 \<le> k \<and> k \<le> 90) \<or> (192 \<le> k \<and> k \<le> 214) \<or> (216 \<le> k \<and> k \<le> 222)
         then char_of (k + 32) else c)"

definition toLowerCase :: "string \<Rightarrow> string" where
  "toLowerCase s = map lower_char s"

fun starts_with :: "string \<Rightarrow> string \<Rightarrow> bool" where
  "starts_with [] s = True"
| "starts_with (a # p) [] = False"
| "starts_with (a # p) (b # s) = (a = b \<and> starts_with p s)"

text \<open>\<open>s.includes(sub)\<close>\<close>

fun includes_str :: "string \<Rightarrow> string \<Rightarrow> bool" where
  "includes_str [] sub = (sub = [])"
| "includes_str (c # s) sub = (starts_with sub (c # s) \<or> includes_str s sub)"

text \<open>
  \<open>text.split(/\r?\n/)\<close>: \<open>cur\<close> is the piece read so far. A carriage return is part
  of the separator only when a line feed follows it.
\<close>

fun split_lines :: "string \<Rightarrow> string \<Rightarrow> string list" where
  "split_lines cur [] = [cur]"
| "split_lines cur [c] = (if c = LF then [cur, []] else [cur @ [c]])"
| "split_lines cur (c # d # r) =
     (if c = LF then cur # split_lines [] (d # r)
      else if c = CR \<and> d = LF then cur # split_lines [] r
      else split_lines (cur @ [c]) (d # r))"

text \<open>
  \<open>line.split(/\s*,\s*/)\<close>. \<open>match_sep s\<close> is what follows a match of \<open>\s*,\s*\<close> at the
  start of \<open>s\<close>, if there is one; the split tries a match at each position in turn.
\<close>

definition match_sep :: "string \<Rightarrow> string option" where
  "match_sep s =
     (case dropWhile is_space s of
        [] \<Rightarrow> None
      | c # r \<Rightarrow> if c = CHR '','' then Some (dropWhile is_space r) else None)"

lemma match_sep_shorter: "match_sep s = Some r \<Longrightarrow> length r < length s"
proof -
  assume m: "match_sep s = Some r"
  then obtain c r' where d: "dropWhile is_space s = c # r'" and r: "r = dropWhile is_space r'"
    by (auto simp: match_sep_def split: list.splits if_splits)
  have "length r \<le> length r'" unfolding r by (rule length_dropWhile_le)
  moreover have "length (c # r') \<le> length s" unfolding d [symmetric] by (rule length_dropWhile_le)
  ultimately show ?thesis by simp
qed

function split_comma :: "string \<Rightarrow> string \<Rightarrow> string list" where
  "split_comma cur [] = [cur]"
| "split_comma cur (c # s) =
     (case match_sep (c # s) of
        Some r \<Rightarrow> cur # split_comma [] r
      | None \<Rightarrow> split_comma (cur @ [c]) s)"
  by pat_completeness auto
termination
  by (relation "measure (\<lambda>(cur, s). length s)") (auto dest: match_sep_shorter)

section \<open>parseFloat\<close>

definition is_digit :: "char \<Rightarrow> bool" where
  "is_digit c = (48 \<le> (of_char c :: nat) \<and> (of_char c :: nat) \<le> 57)"

definition digit_val :: "char \<Rightarrow> nat" where
  "digit_val c = of_char c - 48"

definition digits_val :: "string \<Rightarrow> nat" where
  "digits_val ds = foldl (\<lambda>v c. 10 * v + digit_val c) 0 ds"

text \<open>
  The exponent of an exponent part (\<open>e\<close> or \<open>E\<close>, an optional sign, digits) at the start
  of the string; 0 when there is none, as when the digits are missing.
\<close>

definition exponent_part :: "string \<Rightarrow> int" where
  "exponent_part s =
     (case s of
        [] \<Rightarrow> 0
      | c # r \<Rightarrow>
          if c = CHR ''e'' \<or> c = CHR ''E'' then
            (case r of
               [] \<Rightarrow> 0
             | d # r' \<Rightarrow>
                 if d = CHR ''-'' then - int (digits_val (takeWhile is_digit r'))
                 else if d = CHR ''+'' then int (digits_val (takeWhile is_digit r'))
                 else int (digits_val (takeWhile is_digit r)))
          else 0)"

text \<open>
  The longest prefix that is an unsigned decimal literal (\<open>Infinity\<close>, digits with an
  optional fraction, or a fraction, then an optional exponent part), as a number: the
  decimal value, rounded. NaN when no prefix is one.
\<close>

definition unsigned_literal :: "string \<Rightarrow> number" where
  "unsigned_literal s =
     (if starts_with ''Infinity'' s then PosInf
      else
        (let ip = takeWhile is_digit s;
             r = dropWhile is_digit s;
             dot = (r \<noteq> [] \<and> hd r = CHR ''.'');
             fp = (if dot then takeWhile is_digit (tl r) else []);
             r = (if dot then dropWhile is_digit (tl r) else r)
         in if ip = [] \<and> fp = [] then NaN
            else
              (let e = exponent_part r - int (length fp);
                   m = real (digits_val (ip @ fp))
               in fl (if 0 \<le> e then m * 10 ^ nat e else m / 10 ^ nat (- e)))))"

definition parseFloat :: "string \<Rightarrow> number" where
  "parseFloat s =
     (case dropWhile is_space s of
        [] \<Rightarrow> NaN
      | c # r \<Rightarrow>
          if c = CHR ''-'' then js_neg (unsigned_literal r)
          else if c = CHR ''+'' then unsigned_literal r
          else unsigned_literal (c # r))"

section \<open>The weight-sequence parser\<close>

record weights =
  w0 :: number
  w1 :: number
  w2 :: number

datatype error = TypeError

text \<open>\<open>parts[k]\<close>, as the argument of \<open>parseFloat\<close>: a missing element reads as
  \<open>undefined\<close>.\<close>

definition part :: "string list \<Rightarrow> nat \<Rightarrow> string" where
  "part parts k = (if k < length parts then parts ! k else ''undefined'')"

text \<open>The \<open>for\<close> loop of \<open>parseWeightsCsv\<close>, from index \<open>i\<close> on, with the rows pushed so
  far.\<close>

function parse_loop :: "string list \<Rightarrow> nat \<Rightarrow> weights list \<Rightarrow> weights list" where
  "parse_loop lines i out =
     (if i < length lines then
        (if length (split_comma [] (lines ! i)) < 3 then parse_loop lines (i + 1) out
         else if list_all isFinite
                   [parseFloat (part (split_comma [] (lines ! i)) 0),
                    parseFloat (part (split_comma [] (lines ! i)) 1),
                    parseFloat (part (split_comma [] (lines ! i)) 2)]
         then parse_loop lines (i + 1)
                (out @ [\<lparr>w0 = parseFloat (part (split_comma [] (lines ! i)) 0),
                          w1 = parseFloat (part (split_comma [] (lines ! i)) 1),
                          w2 = parseFloat (part (split_comma [] (lines ! i)) 2)\<rparr>])
         else parse_loop lines (i + 1) out)
      else out)"
  by pat_completeness auto
termination
  by (relation "measure (\<lambda>(lines, i, out). length lines - i)") auto

declare parse_loop.simps [simp del]

text \<open>
  \<open>lines[0].toLowerCase()\<close> throws a TypeError when \<open>lines\<close> has no first element; the
  test on \<open>lines.length\<close> comes before it.
\<close>

definition parseWeightsCsv :: "string \<Rightarrow> error + weights list" where
  "parseWeightsCsv text =
     (let lines = filter (\<lambda>l. length l > 0) (map trim (split_lines [] text))
      in if length lines = 0 then Inr []
         else
           (case lines of
              [] \<Rightarrow> Inl TypeError
            | l # ls \<Rightarrow>
                (let first = toLowerCase l;
                     startIdx =
                       (if includes_str first ''w0'' \<and> includes_str first ''w1'' \<and> includes_str first ''w2''
                        then 1 else 0)
                 in Inr (parse_loop lines startIdx []))))"


section \<open>The CSV export\<close>

text \<open>
  An object is the map of its properties; a property it does not have reads as
  \<open>undefined\<close>. \<open>toCsv\<close> reads the properties \<open>x1\<close>, \<open>x2\<close> and \<open>y\<close> of each row.
\<close>

type_synonym obj = "string \<rightharpoonup> number"

definition point_obj :: "point \<Rightarrow> obj" where
  "point_obj p = [''x1'' \<mapsto> x1 p, ''x2'' \<mapsto> x2 p, ''y'' \<mapsto> y p]"

text \<open>
  The string of a value in a template literal. How a finite number is printed is the
  parameter \<open>str\<close>, the host's conversion of a number to a string.
\<close>

definition template :: "(real \<Rightarrow> string) \<Rightarrow> number option \<Rightarrow> string" where
  "template str v =
     (case v of
        None \<Rightarrow> ''undefined''
      | Some (Fin a) \<Rightarrow> str a
      | Some NaN \<Rightarrow> ''NaN''
      | Some PosInf \<Rightarrow> ''Infinity''
      | Some NegInf \<Rightarrow> ''-Infinity'')"

text \<open>\<open>xs.join(sep)\<close>\<close>

fun join :: "string \<Rightarrow> string list \<Rightarrow> string" where
  "join sep [] = []"
| "join sep [l] = l"
| "join sep (l # m # ls) = l @ sep @ join sep (m # ls)"

definition toCsv :: "(real \<Rightarrow> string) \<Rightarrow> obj list \<Rightarrow> string" where
  "toCsv str rows =
     (let header = [''x1'', ''x2'', ''y''];
          lines = [join '','' header];
          lines = foldl (\<lambda>lines r. lines @
                    [template str (r ''x1'') @ '','' @ template str (r ''x2'') @ '','' @
                       template str (r ''y'')]) lines rows
      in join [LF] lines)"

section \<open>The chart\<close>

text \<open>
  What the program reads and writes of the chart: the data of the three datasets, the
  label of the third (the line) and the bounds of the two axes. A chart point \<open>{x, y}\<close> is
  a pair.
\<close>

record plot =
  blue :: "(number \<times> number) list"
  red :: "(number \<times> number) list"
  line_data :: "(number \<times> number) list"
  line_label :: string
  x_min :: number
  x_max :: number
  y_min :: number
  y_max :: number

text \<open>The points of one class, as chart points.\<close>

definition class_points :: "real \<Rightarrow> point list \<Rightarrow> (number \<times> number) list" where
  "class_points c points = map (\<lambda>p. (x1 p, x2 p)) (filter (\<lambda>p. y p = Fin c) points)"

definition createScatterChart :: "point list \<Rightarrow> plot" where
  "createScatterChart points =
     (let xs = map x1 points;
          ys = map x2 points;
          xMin = Math_min xs; xMax = Math_max xs;
          yMin = Math_min ys; yMax = Math_max ys;
          padX = js_mul (fl 0.15) (js_or (js_sub xMax xMin) (Fin 1));
          padY = js_mul (fl 0.15) (js_or (js_sub yMax yMin) (Fin 1))
      in \<lparr>blue = class_points 0 points,
          red = class_points 1 points,
          line_data = [(js_sub xMin padX, Fin 0), (js_add xMax padX, Fin 0)],
          line_label = ''x2 = 0'',
          x_min = js_sub xMin padX, x_max = js_add xMax padX,
          y_min = js_sub yMin padY, y_max = js_add yMax padY\<rparr>)"

definition setBaselineLine :: "plot \<Rightarrow> plot" where
  "setBaselineLine ch =
     (let xMin = x_min ch; xMax = x_max ch
      in ch\<lparr>line_data := [(xMin, Fin 0), (xMax, Fin 0)], line_label := ''x2 = 0''\<rparr>)"

text \<open>The literal \<open>1e-12\<close>.\<close>

definition epsilon :: number where
  "epsilon = fl (1 / 10 ^ 12)"

definition setDecisionLineFromWeights :: "weights \<Rightarrow> plot \<Rightarrow> plot" where
  "setDecisionLineFromWeights w ch =
     (let xMin = x_min ch; xMax = x_max ch;
          yMin = y_min ch; yMax = y_max ch;
          data =
            (if list_all isFinite [w0 w, w1 w, w2 w] then
               (if js_gt (js_abs (w2 w)) epsilon then
                  [(xMin, js_div (js_neg (js_add (w0 w) (js_mul (w1 w) xMin))) (w2 w)),
                   (xMax, js_div (js_neg (js_add (w0 w) (js_mul (w1 w) xMax))) (w2 w))]
                else if js_gt (js_abs (w1 w)) epsilon then
                  (let xConst = js_div (js_neg (w0 w)) (w1 w)
                   in [(xConst, yMin), (xConst, yMax)])
                else [])
             else [])
      in ch\<lparr>line_data := data, line_label := ''Decision boundary''\<rparr>)"

section \<open>The animation controller\<close>

text \<open>
  The module's variables. The timer handle is opaque: the model keeps the interval it
  was started with. The widgets of the page (status text, button labels and their
  \<open>disabled\<close> flags) and the clipboard are outside the model.
\<close>

record state =
  DATA :: "point list"
  chart :: plot
  currentSeed :: int
  WEIGHT_STEPS :: "weights list"
  stepIndex :: int
  animTimer :: "int option"

definition stopAnimation :: "state \<Rightarrow> state" where
  "stopAnimation s = (if animTimer s \<noteq> None then s\<lparr>animTimer := None\<rparr> else s)"

text \<open>The state when the page has loaded.\<close>

definition initial :: state where
  "initial =
     (let data = generateData 200 123
      in \<lparr>DATA = data, chart = createScatterChart data, currentSeed = 123,
          WEIGHT_STEPS = [], stepIndex = - 1, animTimer = None\<rparr>)"

text \<open>\<open>a % b\<close> on integers with \<open>b\<close> not zero: the remainder has the sign of \<open>a\<close>.\<close>

definition js_rem :: "int \<Rightarrow> int \<Rightarrow> int" where
  "js_rem a b = sgn a * (\<bar>a\<bar> mod \<bar>b\<bar>)"

text \<open>
  What both versions of the Regenerate handler do to the data and the chart, before the
  line is set: the next seed, the new dataset (made by \<open>gen\<close>), the two point sets, the
  baseline over the new bounds, and the new bounds.
\<close>

definition regenerate :: "(int \<Rightarrow> int \<Rightarrow> point list) \<Rightarrow> state \<Rightarrow> state" where
  "regenerate gen s =
     (let s = s\<lparr>currentSeed := js_rem (currentSeed s * 9301 + 49297) 233280\<rparr>;
          s = s\<lparr>DATA := gen 200 (if currentSeed s = 0 then 1 else currentSeed s)\<rparr>;
          xs = map x1 (DATA s);
          ys = map x2 (DATA s);
          xMin = Math_min xs; xMax = Math_max xs;
          yMin = Math_min ys; yMax = Math_max ys;
          padX = js_mul (fl 0.15) (js_or (js_sub xMax xMin) (Fin 1));
          padY = js_mul (fl 0.15) (js_or (js_sub yMax yMin) (Fin 1));
          ch = (chart s)\<lparr>blue := class_points 0 (DATA s), red := class_points 1 (DATA s)\<rparr>;
          ch = ch\<lparr>line_data := [(js_sub xMin padX, Fin 0), (js_add xMax padX, Fin 0)]\<rparr>;
          ch = ch\<lparr>x_min := js_sub xMin padX, x_max := js_add xMax padX,
                  y_min := js_sub yMin padY, y_max := js_add yMax padY\<rparr>
      in s\<lparr>chart := ch\<rparr>)"

text \<open>The Regenerate handler of \<open>src/app.js\<close>: the animation is stopped and the cursor
  reset first, and the line is always the baseline.\<close>

definition regenBtn :: "state \<Rightarrow> state" where
  "regenBtn s =
     (let s = stopAnimation s;
          s = s\<lparr>stepIndex := - 1\<rparr>;
          s = regenerate generateData s
      in s\<lparr>chart := setBaselineLine (chart s)\<rparr>)"

text \<open>
  \<open>WEIGHT_STEPS[stepIndex]\<close> as the argument of \<open>setDecisionLineFromWeights\<close>: outside
  the array it is \<open>undefined\<close>, and destructuring it throws, which ends the handler with
  the chart as it was.
\<close>

definition setDecisionLineAt :: "state \<Rightarrow> state" where
  "setDecisionLineAt s =
     (if 0 \<le> stepIndex s \<and> stepIndex s < int (length (WEIGHT_STEPS s))
      then s\<lparr>chart := setDecisionLineFromWeights (WEIGHT_STEPS s ! nat (stepIndex s)) (chart s)\<rparr>
      else s)"

text \<open>The Regenerate handler of the variant: the cursor and the timer are left alone, and
  the line follows the cursor when weights are loaded.\<close>

definition regenBtn_v :: "state \<Rightarrow> state" where
  "regenBtn_v s =
     (let s = regenerate generateData_v s
      in if length (WEIGHT_STEPS s) > 0 then
           (if stepIndex s \<ge> 0 then setDecisionLineAt s
            else s\<lparr>chart := setBaselineLine (chart s)\<rparr>)
         else s)"

text \<open>The Load handler, with the text of the input field.\<close>

definition loadWeightsBtn :: "string \<Rightarrow> state \<Rightarrow> state" where
  "loadWeightsBtn txt s =
     (let s = stopAnimation s
      in case parseWeightsCsv (trim txt) of
           Inl e \<Rightarrow> s
         | Inr steps \<Rightarrow>
             (let s = s\<lparr>WEIGHT_STEPS := steps\<rparr>;
                  s = s\<lparr>stepIndex := - 1\<rparr>
              in s\<lparr>chart := setBaselineLine (chart s)\<rparr>))"

definition stepBtn :: "state \<Rightarrow> state" where
  "stepBtn s =
     (if length (WEIGHT_STEPS s) = 0 then s
      else if stepIndex s < int (length (WEIGHT_STEPS s)) - 1 then
        (let s = s\<lparr>stepIndex := stepIndex s + 1\<rparr>
         in setDecisionLineAt s)
      else s)"

text \<open>
  The Animate handler, with the speed read from the page (\<open>None\<close> when \<open>parseInt\<close> gives
  NaN): it pauses a running animation and starts one otherwise.
\<close>

definition animateBtn :: "int option \<Rightarrow> state \<Rightarrow> state" where
  "animateBtn v s =
     (if length (WEIGHT_STEPS s) = 0 then s
      else
        (let speed = (case v of None \<Rightarrow> 300 | Some k \<Rightarrow> if k = 0 then 300 else k)
         in if animTimer s \<noteq> None then stopAnimation s
            else s\<lparr>animTimer := Some speed\<rparr>))"

text \<open>One tick of the interval; a cleared interval does not tick.\<close>

definition tick :: "state \<Rightarrow> state" where
  "tick s =
     (if animTimer s = None then s
      else if stepIndex s < int (length (WEIGHT_STEPS s)) - 1 then
        (let s = s\<lparr>stepIndex := stepIndex s + 1\<rparr>
         in setDecisionLineAt s)
      else stopAnimation s)"

definition resetAnimBtn :: "state \<Rightarrow> state" where
  "resetAnimBtn s =
     (let s = stopAnimation s;
          s = s\<lparr>stepIndex := - 1\<rparr>
      in s\<lparr>chart := setBaselineLine (chart s)\<rparr>)"

text \<open>The events of the page and a run of them, one handler at a time.\<close>

datatype event =
  Regen | LoadWeights string | Step | Animate "int option" | Tick | ResetAnim

fun handle :: "state \<Rightarrow> event \<Rightarrow> state" where
  "handle s Regen = regenBtn s"
| "handle s (LoadWeights txt) = loadWeightsBtn txt s"
| "handle s Step = stepBtn s"
| "handle s (Animate v) = animateBtn v s"
| "handle s Tick = tick s"
| "handle s ResetAnim = resetAnimBtn s"

definition run :: "state \<Rightarrow> event list \<Rightarrow> state" where
  "run s evs = foldl handle s evs"

text \<open>The same with the Regenerate handler of the variant.\<close>

fun handle_v :: "state \<Rightarrow> event \<Rightarrow> state" where
  "handle_v s Regen = regenBtn_v s"
| "handle_v s e = handle s e"

definition run_v :: "state \<Rightarrow> event list \<Rightarrow> state" where
  "run_v s evs = foldl handle_v s evs"


text \<open>The state when the page of the variant has loaded.\<close>

definition initial_v :: state where
  "initial_v =
     (let data = generateData_v 200 123
      in \<lparr>DATA = data, chart = createScatterChart data, currentSeed = 123,
          WEIGHT_STEPS = [], stepIndex = - 1, animTimer = None\<rparr>)"

section \<open>Boundary geometry\<close>

text \<open>
  The spec's \<open>lineFor\<close>, for a weight triple: the segment that
  \<open>setDecisionLineFromWeights\<close> stores in a chart with the given bounds.
\<close>

definition lineFor ::
  "weights \<Rightarrow> number \<Rightarrow> number \<Rightarrow> number \<Rightarrow> number \<Rightarrow> (number \<times> number) list"
where
  "lineFor w xMin xMax yMin yMax =
     line_data (setDecisionLineFromWeights w
       \<lparr>blue = [], red = [], line_data = [], line_label = [],
        x_min = xMin, x_max = xMax, y_min = yMin, y_max = yMax\<rparr>)"

lemma line_data_lineFor:
  "line_data (setDecisionLineFromWeights w ch) =
     lineFor w (x_min ch) (x_max ch) (y_min ch) (y_max ch)"
  by (simp add: setDecisionLineFromWeights_def lineFor_def Let_def)

lemma lineFor_finite:
  "lineFor \<lparr>w0 = Fin a, w1 = Fin b, w2 = Fin c\<rparr> xMin xMax yMin yMax =
     (if js_gt (Fin \<bar>c\<bar>) epsilon
      then [(xMin, js_div (js_neg (js_add (Fin a) (js_mul (Fin b) xMin))) (Fin c)),
            (xMax, js_div (js_neg (js_add (Fin a) (js_mul (Fin b) xMax))) (Fin c))]
      else if js_gt (Fin \<bar>b\<bar>) epsilon
      then [(js_div (Fin (- a)) (Fin b), yMin), (js_div (Fin (- a)) (Fin b), yMax)]
      else [])"
  by (simp add: lineFor_def setDecisionLineFromWeights_def Let_def)

text \<open>The threshold \<open>1e-12\<close> is a finite number between 0 and \<open>2e-12\<close>.\<close>

lemma threshold:
  obtains e where "epsilon = Fin e" "0 < e" "e < 2 / 10 ^ 12"
proof -
  have "\<bar>1 / 10 ^ 12 :: real\<bar> \<le> 2 ^ 1023" by simp
  then obtain e where e: "fl (1 / 10 ^ 12) = Fin e"
    "\<bar>e - 1 / 10 ^ 12\<bar> \<le> \<bar>1 / 10 ^ 12\<bar> / 2 ^ 53 + 1 / 2 ^ 1075"
    using fl_near by blast
  have "\<bar>1 / 10 ^ 12 :: real\<bar> / 2 ^ 53 + 1 / 2 ^ 1075 < 1 / 10 ^ 12" by simp
  then have "\<bar>e - 1 / 10 ^ 12\<bar> < 1 / 10 ^ 12" using e(2) by linarith
  then have "0 < e" "e < 2 / 10 ^ 12" by linarith+
  then show ?thesis using e(1) that by (simp add: epsilon_def)
qed

lemma lineFor_horizontal:
  "lineFor \<lparr>w0 = Fin 0, w1 = Fin 0, w2 = Fin 1\<rparr> (Fin 0) (Fin 10) (Fin 0) (Fin 10)
     = [(Fin 0, Fin 0), (Fin 10, Fin 0)]"
proof -
  obtain e where e: "epsilon = Fin e" "0 < e" "e < 2 / 10 ^ 12" by (rule threshold)
  then have "e < 1" by simp
  then show ?thesis by (simp add: lineFor_finite e(1) js_gt_def fl_0)
qed

lemma lineFor_vertical:
  "lineFor \<lparr>w0 = Fin (- 2), w1 = Fin 1, w2 = Fin 0\<rparr> (Fin 0) (Fin 10) (Fin 0) (Fin 10)
     = [(Fin 2, Fin 0), (Fin 2, Fin 10)]"
proof -
  obtain e where e: "epsilon = Fin e" "0 < e" "e < 2 / 10 ^ 12" by (rule threshold)
  then have "e < 1" by simp
  then show ?thesis using e(2) by (simp add: lineFor_finite e(1) js_gt_def fl_numeral)
qed

lemma lineFor_degenerate:
  "lineFor \<lparr>w0 = Fin 0, w1 = Fin 0, w2 = Fin 0\<rparr> (Fin 0) (Fin 10) (Fin 0) (Fin 10) = []"
proof -
  obtain e where e: "epsilon = Fin e" "0 < e" "e < 2 / 10 ^ 12" by (rule threshold)
  then show ?thesis by (simp add: lineFor_finite e(1) js_gt_def)
qed

subsection \<open>An endpoint that overflows\<close>

lemma round_even_ge_floor: "\<lfloor>m\<rfloor> \<le> round_even m"
  by (simp add: round_even_def Let_def)

lemma fl_overflow:
  assumes "2 ^ 1024 \<le> \<bar>v\<bar>"
  shows "fl v = (if 0 < v then PosInf else NegInf)"
proof -
  have v0: "v \<noteq> 0" "0 < \<bar>v\<bar>" using assms by auto
  define e where "e = \<lfloor>log 2 \<bar>v\<bar>\<rfloor>"
  have "(2::real) powr of_int 1024 = 2 ^ 1024" by (simp add: powr_int_pos)
  then have "2 powr of_int 1024 \<le> \<bar>v\<bar>" using assms by simp
  then have e: "1024 \<le> e" unfolding e_def by (rule binade_lower [OF v0(2)])
  then have "max e (- 1022) - 52 = e - 52" by simp
  then have u: "ulp v = 2 powr (of_int e - 52)" by (simp add: ulp_def e_def)
  have u0: "0 < ulp v" by (rule ulp_pos)
  have "2 powr of_int e \<le> \<bar>v\<bar>" unfolding e_def by (rule binade_le [OF v0(2)])
  then have "2 powr of_int e / ulp v \<le> \<bar>v\<bar> / ulp v"
    using u0 by (intro divide_right_mono) simp_all
  moreover have "2 powr of_int e / ulp v = 2 powr 52" unfolding u by (simp add: powr_diff)
  ultimately have "of_int (2 ^ 52) \<le> \<bar>v\<bar> / ulp v" by simp
  then have "2 ^ 52 \<le> \<lfloor>\<bar>v\<bar> / ulp v\<rfloor>" by (simp only: le_floor_iff)
  then have "2 ^ 52 \<le> round_even (\<bar>v\<bar> / ulp v)"
    using round_even_ge_floor [of "\<bar>v\<bar> / ulp v"] by linarith
  then have "(2::real) ^ 52 \<le> of_int (round_even (\<bar>v\<bar> / ulp v))"
    by (metis of_int_le_iff of_int_numeral of_int_power)
  then have "2 ^ 52 * ulp v \<le> of_int (round_even (\<bar>v\<bar> / ulp v)) * ulp v"
    using u0 by (intro mult_right_mono) simp_all
  moreover have "2 ^ 52 * ulp v = 2 powr of_int e" unfolding u by (simp add: powr_diff)
  moreover have "(2::real) powr of_int 1024 \<le> 2 powr of_int e"
    using e by (intro powr_mono) simp_all
  ultimately have "2 ^ 1024 \<le> of_int (round_even (\<bar>v\<bar> / ulp v)) * ulp v"
    by (simp add: powr_int_pos)
  then show ?thesis using v0(1) by (simp add: fl_def Let_def)
qed

text \<open>The weights \<open>1e300, 0, 1e-11\<close>: the line is sloped and both endpoints are
  \<open>-Infinity\<close>.\<close>

lemma lineFor_overflow:
  "lineFor \<lparr>w0 = fl (10 ^ 300), w1 = Fin 0, w2 = fl (1 / 10 ^ 11)\<rparr>
       (Fin 0) (Fin 10) (Fin 0) (Fin 10)
     = [(Fin 0, NegInf), (Fin 10, NegInf)]"
proof -
  obtain e where e: "epsilon = Fin e" "0 < e" "e < 2 / 10 ^ 12" by (rule threshold)
  define T :: real where "T = 10 ^ 298"
  define U :: real where "U = 1 / 10 ^ 13"
  have T: "10 ^ 300 = 100 * T" "0 < T" by (simp_all add: T_def)
  have U: "1 / 10 ^ 11 = 100 * U" "2 / 10 ^ 12 = 20 * U" "0 < U" by (simp_all add: U_def)
  have "\<bar>10 ^ 300 :: real\<bar> \<le> 2 ^ 1023" by simp
  then obtain A where A: "fl (10 ^ 300) = Fin A"
    "\<bar>A - 10 ^ 300\<bar> \<le> \<bar>10 ^ 300\<bar> / 2 ^ 53 + 1 / 2 ^ 1075"
    using fl_near by blast
  have "\<bar>10 ^ 300 :: real\<bar> / 2 ^ 53 + 1 / 2 ^ 1075 \<le> T" by (simp add: T_def)
  then have A': "99 * T \<le> A" "A \<le> 101 * T" using A(2) T by linarith+
  have "\<bar>A\<bar> \<le> 101 * T" using A' T(2) by linarith
  moreover have "101 * T \<le> 2 ^ 1023" by (simp add: T_def)
  ultimately have Ab: "\<bar>A\<bar> \<le> 2 ^ 1023" by linarith
  then obtain B where B: "fl A = Fin B" "\<bar>B - A\<bar> \<le> \<bar>A\<bar> / 2 ^ 53 + 1 / 2 ^ 1075"
    using fl_near by blast
  have "\<bar>A\<bar> / 2 ^ 53 \<le> 2 ^ 1023 / 2 ^ 53" using Ab by (intro divide_right_mono) simp_all
  moreover have "(2::real) ^ 1023 / 2 ^ 53 + 1 / 2 ^ 1075 \<le> T" by (simp add: T_def)
  ultimately have "\<bar>A\<bar> / 2 ^ 53 + 1 / 2 ^ 1075 \<le> T" by linarith
  then have B': "98 * T \<le> B" using B(2) A'(1) by linarith
  have "\<bar>1 / 10 ^ 11 :: real\<bar> \<le> 2 ^ 1023" by simp
  then obtain D where D: "fl (1 / 10 ^ 11) = Fin D"
    "\<bar>D - 1 / 10 ^ 11\<bar> \<le> \<bar>1 / 10 ^ 11\<bar> / 2 ^ 53 + 1 / 2 ^ 1075"
    using fl_near by blast
  have "\<bar>1 / 10 ^ 11 :: real\<bar> / 2 ^ 53 + 1 / 2 ^ 1075 \<le> U" by (simp add: U_def)
  then have D': "99 * U \<le> D" "D \<le> 101 * U" using D(2) U by linarith+
  have D0: "0 < D" "e < D" using D'(1) U e(3) by linarith+
  have "98 * T / (101 * U) \<le> B / D"
    using B' D' D0(1) T(2) by (intro frac_le) simp_all
  moreover have "(2::real) ^ 1024 \<le> 98 * T / (101 * U)" by (simp add: T_def U_def)
  ultimately have "2 ^ 1024 \<le> B / D" by linarith
  moreover have "0 < B" using B' T(2) by linarith
  then have pos: "0 < B / D" using D0(1) by simp
  ultimately have big: "2 ^ 1024 \<le> \<bar>- (B / D)\<bar>" by linarith
  have neg: "\<not> 0 < - (B / D)" using pos by linarith
  have q: "fl (- (B / D)) = NegInf" using fl_overflow [OF big] neg by simp
  have "lineFor \<lparr>w0 = Fin A, w1 = Fin 0, w2 = Fin D\<rparr> (Fin 0) (Fin 10) (Fin 0) (Fin 10)
     = [(Fin 0, NegInf), (Fin 10, NegInf)]"
    using D0 q by (simp add: lineFor_finite e(1) js_gt_def fl_0 B(1))
  then show ?thesis by (simp only: A(1) D(1))
qed

text \<open>
  Claim C2: the line that \<open>setDecisionLineFromWeights\<close> draws depends on the chart through
  its bounds only, and for finite weights \<open>a\<close>, \<open>b\<close>, \<open>c\<close> and any bounds it is: the two
  endpoints \<open>(xMin, -(a + b*xMin)/c)\<close> and \<open>(xMax, -(a + b*xMax)/c)\<close> if \<open>|c| > 1e-12\<close>,
  whatever \<open>b\<close> is; else the vertical segment at \<open>x = -a/b\<close> from \<open>yMin\<close> to \<open>yMax\<close> if
  \<open>|b| > 1e-12\<close>; else empty. The comparisons and the formulas are those of the numbers:
  each operation rounds, and an endpoint can be an infinity, as for the weights
  \<open>1e300, 0, 1e-11\<close>. The three examples of the spec follow.
\<close>

theorem C2_boundary_line:
  "line_data (setDecisionLineFromWeights w ch) =
     lineFor w (x_min ch) (x_max ch) (y_min ch) (y_max ch)
   \<and> lineFor \<lparr>w0 = Fin a, w1 = Fin b, w2 = Fin c\<rparr> xMin xMax yMin yMax =
     (if js_gt (Fin \<bar>c\<bar>) epsilon
      then [(xMin, js_div (js_neg (js_add (Fin a) (js_mul (Fin b) xMin))) (Fin c)),
            (xMax, js_div (js_neg (js_add (Fin a) (js_mul (Fin b) xMax))) (Fin c))]
      else if js_gt (Fin \<bar>b\<bar>) epsilon
      then [(js_div (Fin (- a)) (Fin b), yMin), (js_div (Fin (- a)) (Fin b), yMax)]
      else [])
   \<and> lineFor \<lparr>w0 = Fin 0, w1 = Fin 0, w2 = Fin 1\<rparr> (Fin 0) (Fin 10) (Fin 0) (Fin 10)
       = [(Fin 0, Fin 0), (Fin 10, Fin 0)]
   \<and> lineFor \<lparr>w0 = Fin (- 2), w1 = Fin 1, w2 = Fin 0\<rparr> (Fin 0) (Fin 10) (Fin 0) (Fin 10)
       = [(Fin 2, Fin 0), (Fin 2, Fin 10)]
   \<and> lineFor \<lparr>w0 = Fin 0, w1 = Fin 0, w2 = Fin 0\<rparr> (Fin 0) (Fin 10) (Fin 0) (Fin 10) = []
   \<and> lineFor \<lparr>w0 = fl (10 ^ 300), w1 = Fin 0, w2 = fl (1 / 10 ^ 11)\<rparr>
         (Fin 0) (Fin 10) (Fin 0) (Fin 10)
       = [(Fin 0, NegInf), (Fin 10, NegInf)]"
proof (intro conjI)
  show "line_data (setDecisionLineFromWeights w ch) =
     lineFor w (x_min ch) (x_max ch) (y_min ch) (y_max ch)"
    by (rule line_data_lineFor)
  show "lineFor \<lparr>w0 = Fin a, w1 = Fin b, w2 = Fin c\<rparr> xMin xMax yMin yMax =
     (if js_gt (Fin \<bar>c\<bar>) epsilon
      then [(xMin, js_div (js_neg (js_add (Fin a) (js_mul (Fin b) xMin))) (Fin c)),
            (xMax, js_div (js_neg (js_add (Fin a) (js_mul (Fin b) xMax))) (Fin c))]
      else if js_gt (Fin \<bar>b\<bar>) epsilon
      then [(js_div (Fin (- a)) (Fin b), yMin), (js_div (Fin (- a)) (Fin b), yMax)]
      else [])"
    by (rule lineFor_finite)
  show "lineFor \<lparr>w0 = Fin 0, w1 = Fin 0, w2 = Fin 1\<rparr> (Fin 0) (Fin 10) (Fin 0) (Fin 10)
       = [(Fin 0, Fin 0), (Fin 10, Fin 0)]"
    by (rule lineFor_horizontal)
  show "lineFor \<lparr>w0 = Fin (- 2), w1 = Fin 1, w2 = Fin 0\<rparr> (Fin 0) (Fin 10) (Fin 0) (Fin 10)
       = [(Fin 2, Fin 0), (Fin 2, Fin 10)]"
    by (rule lineFor_vertical)
  show "lineFor \<lparr>w0 = Fin 0, w1 = Fin 0, w2 = Fin 0\<rparr> (Fin 0) (Fin 10) (Fin 0) (Fin 10) = []"
    by (rule lineFor_degenerate)
  show "lineFor \<lparr>w0 = fl (10 ^ 300), w1 = Fin 0, w2 = fl (1 / 10 ^ 11)\<rparr>
         (Fin 0) (Fin 10) (Fin 0) (Fin 10)
       = [(Fin 0, NegInf), (Fin 10, NegInf)]"
    by (rule lineFor_overflow)
qed

section \<open>Evaluating the parser\<close>

lemmas parseFloat_eval = parseFloat_def is_space_def unsigned_literal_def is_digit_def
  digits_val_def digit_val_def exponent_part_def fl_0 fl_1 fl_numeral

lemmas parse_eval = parseWeightsCsv_def trim_def is_space_def LF_def CR_def match_sep_def
  part_def parse_loop.simps

lemma toLowerCase_digits: "toLowerCase ''1,2,3'' = ''1,2,3''"
  by code_simp

lemma toLowerCase_digits3:
  "toLowerCase ''1,2,3\<newline>4,5,6\<newline>1,2,3'' = ''1,2,3\<newline>4,5,6\<newline>1,2,3''"
  by code_simp

lemma toLowerCase_header: "toLowerCase ''w0,w1,w2'' = ''w0,w1,w2''"
  by code_simp

lemma parseFloat_digit:
  "parseFloat ''1'' = Fin 1" "parseFloat ''2'' = Fin 2" "parseFloat ''3'' = Fin 3"
  "parseFloat ''4'' = Fin 4" "parseFloat ''5'' = Fin 5" "parseFloat ''6'' = Fin 6"
  by (simp_all add: parseFloat_eval)

lemma parse_one_row: "parseWeightsCsv ''1,2,3'' = Inr [\<lparr>w0 = Fin 1, w1 = Fin 2, w2 = Fin 3\<rparr>]"
  by (simp add: parse_eval toLowerCase_digits parseFloat_digit)

lemma parse_three_rows:
  "parseWeightsCsv ''1,2,3\<newline>4,5,6\<newline>1,2,3'' =
     Inr [\<lparr>w0 = Fin 1, w1 = Fin 2, w2 = Fin 3\<rparr>, \<lparr>w0 = Fin 4, w1 = Fin 5, w2 = Fin 6\<rparr>,
          \<lparr>w0 = Fin 1, w1 = Fin 2, w2 = Fin 3\<rparr>]"
  by (simp add: parse_eval toLowerCase_digits parseFloat_digit)

lemma trim_one_row: "trim ''1,2,3'' = ''1,2,3''"
  by (simp add: trim_def is_space_def)

lemma trim_three_rows:
  "trim ''1,2,3\<newline>4,5,6\<newline>1,2,3'' = ''1,2,3\<newline>4,5,6\<newline>1,2,3''"
  by (simp add: trim_def is_space_def)

section \<open>Properties of the controller\<close>

lemma regenerate_frame [simp]:
  "stepIndex (regenerate gen s) = stepIndex s"
  "WEIGHT_STEPS (regenerate gen s) = WEIGHT_STEPS s"
  "animTimer (regenerate gen s) = animTimer s"
  by (simp_all add: regenerate_def Let_def)

lemma stopAnimation_frame [simp]:
  "stepIndex (stopAnimation s) = stepIndex s"
  "WEIGHT_STEPS (stopAnimation s) = WEIGHT_STEPS s"
  "chart (stopAnimation s) = chart s"
  "animTimer (stopAnimation s) = None"
  by (simp_all add: stopAnimation_def)

lemma setDecisionLineAt_frame [simp]:
  "stepIndex (setDecisionLineAt s) = stepIndex s"
  "WEIGHT_STEPS (setDecisionLineAt s) = WEIGHT_STEPS s"
  "animTimer (setDecisionLineAt s) = animTimer s"
  by (simp_all add: setDecisionLineAt_def)

lemma load_one_row:
  "WEIGHT_STEPS (loadWeightsBtn ''1,2,3'' s) = [\<lparr>w0 = Fin 1, w1 = Fin 2, w2 = Fin 3\<rparr>]"
  "stepIndex (loadWeightsBtn ''1,2,3'' s) = - 1"
  by (simp_all add: loadWeightsBtn_def trim_one_row parse_one_row Let_def)

lemma load_three_rows:
  "WEIGHT_STEPS (loadWeightsBtn ''1,2,3\<newline>4,5,6\<newline>1,2,3'' s) =
     [\<lparr>w0 = Fin 1, w1 = Fin 2, w2 = Fin 3\<rparr>, \<lparr>w0 = Fin 4, w1 = Fin 5, w2 = Fin 6\<rparr>,
      \<lparr>w0 = Fin 1, w1 = Fin 2, w2 = Fin 3\<rparr>]"
  "stepIndex (loadWeightsBtn ''1,2,3\<newline>4,5,6\<newline>1,2,3'' s) = - 1"
  by (simp_all add: loadWeightsBtn_def trim_three_rows parse_three_rows Let_def)

lemma loaded_stepped:
  "stepIndex (run initial [LoadWeights ''1,2,3'', Step]) = 0"
  "WEIGHT_STEPS (run initial [LoadWeights ''1,2,3'', Step]) =
     [\<lparr>w0 = Fin 1, w1 = Fin 2, w2 = Fin 3\<rparr>]"
  by (simp_all add: run_def stepBtn_def load_one_row Let_def)

lemma loaded_stepped_v:
  "stepIndex (run_v initial_v [LoadWeights ''1,2,3'', Step]) = 0"
  "WEIGHT_STEPS (run_v initial_v [LoadWeights ''1,2,3'', Step]) =
     [\<lparr>w0 = Fin 1, w1 = Fin 2, w2 = Fin 3\<rparr>]"
  by (simp_all add: run_v_def stepBtn_def load_one_row Let_def)

lemma regenerate_baseline:
  "line_data (chart (regenerate gen s)) =
     [(x_min (chart (regenerate gen s)), Fin 0), (x_max (chart (regenerate gen s)), Fin 0)]"
  by (simp add: regenerate_def Let_def)

subsection \<open>Stepping\<close>

text \<open>
  Claim C1: with a sequence of three weight triples loaded and the cursor at -1, three
  steps move the cursor to 0, 1 and 2, each setting the line from the triple at the new
  cursor, and a fourth step changes nothing. For every non-empty sequence, a step with
  the cursor below the last index adds one to the cursor, keeps the sequence and (the
  cursor being at least -1) sets the line from the triple at the new cursor; a step with
  the cursor at the last index changes nothing.
\<close>

theorem C1_step:
  "(WEIGHT_STEPS s = [a, b, c] \<and> stepIndex s = - 1 \<longrightarrow>
      stepIndex (stepBtn s) = 0 \<and>
      chart (stepBtn s) = setDecisionLineFromWeights a (chart s) \<and>
      stepIndex (stepBtn (stepBtn s)) = 1 \<and>
      chart (stepBtn (stepBtn s)) = setDecisionLineFromWeights b (chart (stepBtn s)) \<and>
      stepIndex (stepBtn (stepBtn (stepBtn s))) = 2 \<and>
      chart (stepBtn (stepBtn (stepBtn s))) =
        setDecisionLineFromWeights c (chart (stepBtn (stepBtn s))) \<and>
      stepBtn (stepBtn (stepBtn (stepBtn s))) = stepBtn (stepBtn (stepBtn s))) \<and>
   (WEIGHT_STEPS s \<noteq> [] \<and> stepIndex s < int (length (WEIGHT_STEPS s)) - 1 \<longrightarrow>
      stepIndex (stepBtn s) = stepIndex s + 1 \<and>
      WEIGHT_STEPS (stepBtn s) = WEIGHT_STEPS s \<and>
      (- 1 \<le> stepIndex s \<longrightarrow>
         chart (stepBtn s) =
           setDecisionLineFromWeights (WEIGHT_STEPS s ! nat (stepIndex s + 1)) (chart s))) \<and>
   (WEIGHT_STEPS s \<noteq> [] \<and> stepIndex s = int (length (WEIGHT_STEPS s)) - 1 \<longrightarrow>
      stepBtn s = s)"
proof (intro conjI impI)
  assume h: "WEIGHT_STEPS s = [a, b, c] \<and> stepIndex s = - 1"
  define s1 where "s1 = stepBtn s"
  define s2 where "s2 = stepBtn s1"
  define s3 where "s3 = stepBtn s2"
  have 1: "stepIndex s1 = 0" "WEIGHT_STEPS s1 = [a, b, c]"
    "chart s1 = setDecisionLineFromWeights a (chart s)"
    using h by (simp_all add: s1_def stepBtn_def setDecisionLineAt_def Let_def)
  have 2: "stepIndex s2 = 1" "WEIGHT_STEPS s2 = [a, b, c]"
    "chart s2 = setDecisionLineFromWeights b (chart s1)"
    using 1 by (simp_all add: s2_def stepBtn_def setDecisionLineAt_def Let_def)
  have 3: "stepIndex s3 = 2" "WEIGHT_STEPS s3 = [a, b, c]"
    "chart s3 = setDecisionLineFromWeights c (chart s2)"
    using 2 by (simp_all add: s3_def stepBtn_def setDecisionLineAt_def Let_def)
  have 4: "stepBtn s3 = s3" using 3 by (simp add: stepBtn_def)
  show "stepIndex (stepBtn s) = 0" using 1 by (simp add: s1_def)
  show "chart (stepBtn s) = setDecisionLineFromWeights a (chart s)" using 1 by (simp add: s1_def)
  show "stepIndex (stepBtn (stepBtn s)) = 1" using 2 by (simp add: s1_def s2_def)
  show "chart (stepBtn (stepBtn s)) = setDecisionLineFromWeights b (chart (stepBtn s))"
    using 2 by (simp add: s1_def s2_def)
  show "stepIndex (stepBtn (stepBtn (stepBtn s))) = 2" using 3 by (simp add: s1_def s2_def s3_def)
  show "chart (stepBtn (stepBtn (stepBtn s))) =
        setDecisionLineFromWeights c (chart (stepBtn (stepBtn s)))"
    using 3 by (simp add: s1_def s2_def s3_def)
  show "stepBtn (stepBtn (stepBtn (stepBtn s))) = stepBtn (stepBtn (stepBtn s))"
    using 4 by (simp add: s1_def s2_def s3_def)
next
  assume h: "WEIGHT_STEPS s \<noteq> [] \<and> stepIndex s < int (length (WEIGHT_STEPS s)) - 1"
  then show "stepIndex (stepBtn s) = stepIndex s + 1" by (simp add: stepBtn_def Let_def)
  from h show "WEIGHT_STEPS (stepBtn s) = WEIGHT_STEPS s" by (simp add: stepBtn_def Let_def)
  assume "- 1 \<le> stepIndex s"
  with h show "chart (stepBtn s) =
           setDecisionLineFromWeights (WEIGHT_STEPS s ! nat (stepIndex s + 1)) (chart s)"
    by (simp add: stepBtn_def Let_def setDecisionLineAt_def)
next
  assume "WEIGHT_STEPS s \<noteq> [] \<and> stepIndex s = int (length (WEIGHT_STEPS s)) - 1"
  then show "stepBtn s = s" by (simp add: stepBtn_def)
qed


definition three_loaded :: state where
  "three_loaded = loadWeightsBtn ''1,2,3\<newline>4,5,6\<newline>1,2,3'' initial"

theorem C1_step_witness:
  "WEIGHT_STEPS three_loaded \<noteq> [] \<and>
   stepIndex three_loaded = - 1 \<and>
   stepIndex three_loaded < int (length (WEIGHT_STEPS three_loaded)) - 1 \<and>
   stepIndex (stepBtn three_loaded) = 0 \<and>
   chart (stepBtn three_loaded) =
     setDecisionLineFromWeights \<lparr>w0 = Fin 1, w1 = Fin 2, w2 = Fin 3\<rparr> (chart three_loaded) \<and>
   stepIndex (stepBtn (stepBtn three_loaded)) = 1 \<and>
   stepIndex (stepBtn (stepBtn (stepBtn three_loaded))) = 2 \<and>
   stepIndex (stepBtn (stepBtn (stepBtn three_loaded)))
     = int (length (WEIGHT_STEPS (stepBtn (stepBtn (stepBtn three_loaded))))) - 1 \<and>
   stepBtn (stepBtn (stepBtn (stepBtn three_loaded))) = stepBtn (stepBtn (stepBtn three_loaded))"
proof -
  have w: "WEIGHT_STEPS three_loaded =
     [\<lparr>w0 = Fin 1, w1 = Fin 2, w2 = Fin 3\<rparr>, \<lparr>w0 = Fin 4, w1 = Fin 5, w2 = Fin 6\<rparr>,
      \<lparr>w0 = Fin 1, w1 = Fin 2, w2 = Fin 3\<rparr>]"
    and i: "stepIndex three_loaded = - 1"
    by (simp_all add: three_loaded_def load_three_rows)
  have k: "WEIGHT_STEPS (stepBtn (stepBtn (stepBtn three_loaded))) = WEIGHT_STEPS three_loaded"
    by (simp add: stepBtn_def Let_def)
  show ?thesis
    using C1_step [of three_loaded "\<lparr>w0 = Fin 1, w1 = Fin 2, w2 = Fin 3\<rparr>"
        "\<lparr>w0 = Fin 4, w1 = Fin 5, w2 = Fin 6\<rparr>" "\<lparr>w0 = Fin 1, w1 = Fin 2, w2 = Fin 3\<rparr>"]
    by (simp add: w i k)
qed

subsection \<open>Regenerating the dataset\<close>

text \<open>
  Claim C5, as stated: regenerating the dataset leaves the cursor unchanged. In
  \<open>src/app.js\<close> the handler resets it: after loading one weight triple and one step the
  cursor is 0, and after Regenerate it is -1.
\<close>

theorem C5_regen_counterexample:
  "stepIndex (run initial [LoadWeights ''1,2,3'', Step]) = 0 \<and>
   stepIndex (regenBtn (run initial [LoadWeights ''1,2,3'', Step])) = - 1"
  by (simp add: loaded_stepped regenBtn_def Let_def)

text \<open>
  Claim C5, amended: regenerating the dataset never alters the loaded weight sequence.
  In \<open>src/app.js\<close> it stops the animation, resets the cursor to -1 and draws the baseline
  on the regenerated chart. In the variant it leaves the cursor and the timer unchanged;
  with the cursor on a loaded triple the line is computed again from that triple on the
  regenerated chart (so against the new bounds), and with the cursor at -1 the line is the
  baseline over the new bounds.
\<close>

theorem C5_regen:
  "WEIGHT_STEPS (regenBtn s) = WEIGHT_STEPS s \<and>
   stepIndex (regenBtn s) = - 1 \<and>
   animTimer (regenBtn s) = None \<and>
   chart (regenBtn s) = setBaselineLine (chart (regenerate generateData s)) \<and>
   WEIGHT_STEPS (regenBtn_v s) = WEIGHT_STEPS s \<and>
   stepIndex (regenBtn_v s) = stepIndex s \<and>
   animTimer (regenBtn_v s) = animTimer s \<and>
   (0 \<le> stepIndex s \<and> stepIndex s < int (length (WEIGHT_STEPS s)) \<longrightarrow>
      chart (regenBtn_v s) =
        setDecisionLineFromWeights (WEIGHT_STEPS s ! nat (stepIndex s))
          (chart (regenerate generateData_v s))) \<and>
   (stepIndex s = - 1 \<longrightarrow>
      line_data (chart (regenBtn_v s)) =
        [(x_min (chart (regenBtn_v s)), Fin 0), (x_max (chart (regenBtn_v s)), Fin 0)])"
proof (intro conjI impI)
  show "WEIGHT_STEPS (regenBtn s) = WEIGHT_STEPS s" by (simp add: regenBtn_def Let_def)
  show "stepIndex (regenBtn s) = - 1" by (simp add: regenBtn_def Let_def)
  show "animTimer (regenBtn s) = None" by (simp add: regenBtn_def Let_def)
  show "chart (regenBtn s) = setBaselineLine (chart (regenerate generateData s))"
    by (simp add: regenBtn_def Let_def regenerate_def stopAnimation_def)
  show "WEIGHT_STEPS (regenBtn_v s) = WEIGHT_STEPS s" by (simp add: regenBtn_v_def Let_def)
  show "stepIndex (regenBtn_v s) = stepIndex s" by (simp add: regenBtn_v_def Let_def)
  show "animTimer (regenBtn_v s) = animTimer s" by (simp add: regenBtn_v_def Let_def)
next
  assume "0 \<le> stepIndex s \<and> stepIndex s < int (length (WEIGHT_STEPS s))"
  then show "chart (regenBtn_v s) =
        setDecisionLineFromWeights (WEIGHT_STEPS s ! nat (stepIndex s))
          (chart (regenerate generateData_v s))"
    by (auto simp add: regenBtn_v_def Let_def setDecisionLineAt_def)
next
  assume "stepIndex s = - 1"
  then show "line_data (chart (regenBtn_v s)) =
        [(x_min (chart (regenBtn_v s)), Fin 0), (x_max (chart (regenBtn_v s)), Fin 0)]"
    by (simp add: regenBtn_v_def Let_def regenerate_baseline setBaselineLine_def)
qed

theorem C5_regen_witness:
  "0 \<le> stepIndex (run_v initial_v [LoadWeights ''1,2,3'', Step]) \<and>
   stepIndex (run_v initial_v [LoadWeights ''1,2,3'', Step])
     < int (length (WEIGHT_STEPS (run_v initial_v [LoadWeights ''1,2,3'', Step]))) \<and>
   chart (regenBtn_v (run_v initial_v [LoadWeights ''1,2,3'', Step])) =
     setDecisionLineFromWeights \<lparr>w0 = Fin 1, w1 = Fin 2, w2 = Fin 3\<rparr>
       (chart (regenerate generateData_v (run_v initial_v [LoadWeights ''1,2,3'', Step]))) \<and>
   stepIndex initial_v = - 1 \<and>
   line_data (chart (regenBtn_v initial_v)) =
     [(x_min (chart (regenBtn_v initial_v)), Fin 0), (x_max (chart (regenBtn_v initial_v)), Fin 0)]"
proof -
  have i: "stepIndex initial_v = - 1" by (simp add: initial_v_def Let_def)
  show ?thesis
    using C5_regen [of "run_v initial_v [LoadWeights ''1,2,3'', Step]"] C5_regen [of initial_v]
    by (simp add: loaded_stepped_v i)
qed

subsection \<open>The cursor stays in range\<close>

definition cursor_ok :: "state \<Rightarrow> bool" where
  "cursor_ok s = (- 1 \<le> stepIndex s \<and> stepIndex s \<le> int (length (WEIGHT_STEPS s)) - 1)"

lemma cursor_ok_regenBtn: "cursor_ok (regenBtn s)"
  by (simp add: cursor_ok_def regenBtn_def Let_def)

lemma cursor_ok_regenBtn_v: "cursor_ok s \<Longrightarrow> cursor_ok (regenBtn_v s)"
  by (auto simp add: cursor_ok_def regenBtn_v_def Let_def)

lemma cursor_ok_load: "cursor_ok s \<Longrightarrow> cursor_ok (loadWeightsBtn txt s)"
  by (simp add: cursor_ok_def loadWeightsBtn_def Let_def split: sum.splits)

lemma cursor_ok_step: "cursor_ok s \<Longrightarrow> cursor_ok (stepBtn s)"
  by (auto simp add: cursor_ok_def stepBtn_def Let_def)

lemma cursor_ok_animate: "cursor_ok s \<Longrightarrow> cursor_ok (animateBtn v s)"
  by (auto simp add: cursor_ok_def animateBtn_def Let_def)

lemma cursor_ok_tick: "cursor_ok s \<Longrightarrow> cursor_ok (tick s)"
  by (auto simp add: cursor_ok_def tick_def Let_def)

lemma cursor_ok_reset: "cursor_ok (resetAnimBtn s)"
  by (simp add: cursor_ok_def resetAnimBtn_def Let_def)

lemma cursor_ok_handle: "cursor_ok s \<Longrightarrow> cursor_ok (handle s e)"
  by (cases e) (simp_all add: cursor_ok_regenBtn cursor_ok_load cursor_ok_step
      cursor_ok_animate cursor_ok_tick cursor_ok_reset)

lemma cursor_ok_handle_v: "cursor_ok s \<Longrightarrow> cursor_ok (handle_v s e)"
  by (cases e) (simp_all add: cursor_ok_regenBtn_v cursor_ok_load cursor_ok_step
      cursor_ok_animate cursor_ok_tick cursor_ok_reset)

lemma cursor_ok_run: "cursor_ok s \<Longrightarrow> cursor_ok (run s evs)"
  unfolding run_def by (induction evs arbitrary: s) (simp_all add: cursor_ok_handle)

lemma cursor_ok_run_v: "cursor_ok s \<Longrightarrow> cursor_ok (run_v s evs)"
  unfolding run_v_def by (induction evs arbitrary: s) (simp_all add: cursor_ok_handle_v)

lemma cursor_ok_initial: "cursor_ok initial"
  by (simp add: cursor_ok_def initial_def Let_def)

lemma cursor_ok_initial_v: "cursor_ok initial_v"
  by (simp add: cursor_ok_def initial_v_def Let_def)

text \<open>
  Claim C8: after any sequence of events (regenerate, load, step, animate or pause, tick,
  reset) from the state of the loaded page, the cursor is in \<open>[-1, length - 1]\<close>, where
  \<open>length\<close> is the length of the weight sequence then loaded. The same holds with the
  Regenerate handler of the variant.
\<close>

theorem C8_cursor_invariant:
  "- 1 \<le> stepIndex (run initial evs) \<and>
   stepIndex (run initial evs) \<le> int (length (WEIGHT_STEPS (run initial evs))) - 1 \<and>
   - 1 \<le> stepIndex (run_v initial_v evs) \<and>
   stepIndex (run_v initial_v evs) \<le> int (length (WEIGHT_STEPS (run_v initial_v evs))) - 1"
proof -
  have "cursor_ok (run initial evs)" by (rule cursor_ok_run [OF cursor_ok_initial])
  moreover have "cursor_ok (run_v initial_v evs)" by (rule cursor_ok_run_v [OF cursor_ok_initial_v])
  ultimately show ?thesis by (simp add: cursor_ok_def)
qed


section \<open>Properties of the parser\<close>

subsection \<open>The parser as the spec words it\<close>

text \<open>
  The triple of one line, if the line is kept: it splits on commas into at least three
  fields and the first three parse to finite numbers.
\<close>

definition data_row :: "string \<Rightarrow> weights option" where
  "data_row l =
     (let fs = split_comma [] l
      in if 3 \<le> length fs \<and> isFinite (parseFloat (fs ! 0)) \<and> isFinite (parseFloat (fs ! 1))
            \<and> isFinite (parseFloat (fs ! 2))
         then Some \<lparr>w0 = parseFloat (fs ! 0), w1 = parseFloat (fs ! 1), w2 = parseFloat (fs ! 2)\<rparr>
         else None)"

text \<open>A header: the line contains \<open>w0\<close>, \<open>w1\<close> and \<open>w2\<close>, in any case.\<close>

definition is_header :: "string \<Rightarrow> bool" where
  "is_header l =
     (includes_str (toLowerCase l) ''w0'' \<and> includes_str (toLowerCase l) ''w1''
      \<and> includes_str (toLowerCase l) ''w2'')"

text \<open>The lines of the input, trimmed, without the blank ones.\<close>

definition nonblank_lines :: "string \<Rightarrow> string list" where
  "nonblank_lines txt = filter (\<lambda>l. l \<noteq> []) (map trim (split_lines [] txt))"

text \<open>The result: the triples of the kept lines, in order, after a header in first place
  is skipped.\<close>

definition parse_spec :: "string \<Rightarrow> weights list" where
  "parse_spec txt =
     (case nonblank_lines txt of
        [] \<Rightarrow> []
      | l # ls \<Rightarrow> List.map_filter data_row (if is_header l then ls else l # ls))"

subsection \<open>The loop computes it\<close>

lemma part_in:
  "3 \<le> length ps \<Longrightarrow> part ps 0 = ps ! 0 \<and> part ps 1 = ps ! 1 \<and> part ps 2 = ps ! 2"
  by (auto simp add: part_def)

lemma parse_loop_step:
  assumes "i < length lines"
  shows "parse_loop lines i out =
     parse_loop lines (i + 1) (case data_row (lines ! i) of None \<Rightarrow> out | Some w \<Rightarrow> out @ [w])"
proof (cases "length (split_comma [] (lines ! i)) < 3")
  case True
  then have "data_row (lines ! i) = None" by (simp add: data_row_def Let_def)
  then show ?thesis using assms True by (subst parse_loop.simps) simp
next
  case False
  then have p: "part (split_comma [] (lines ! i)) 0 = split_comma [] (lines ! i) ! 0"
    "part (split_comma [] (lines ! i)) (Suc 0) = split_comma [] (lines ! i) ! Suc 0"
    "part (split_comma [] (lines ! i)) 2 = split_comma [] (lines ! i) ! 2"
    using part_in [of "split_comma [] (lines ! i)"] by simp_all
  from False have l: "3 \<le> length (split_comma [] (lines ! i))" by simp
  show ?thesis
    using assms False
    by (subst parse_loop.simps) (simp add: p data_row_def Let_def l)
qed

lemma parse_loop_rows:
  "parse_loop lines i out = out @ List.map_filter data_row (drop i lines)"
proof (induction "length lines - i" arbitrary: i out)
  case 0
  then show ?case by (subst parse_loop.simps) (simp add: map_filter_simps)
next
  case (Suc k)
  then have lt: "i < length lines" and k: "k = length lines - (i + 1)" by linarith+
  have d: "drop i lines = lines ! i # drop (i + 1) lines"
    using lt by (simp add: Cons_nth_drop_Suc)
  show ?case
    unfolding parse_loop_step [OF lt] Suc.hyps(1) [OF k] d
    by (simp add: map_filter_simps split: option.splits)
qed

lemma parse_refines: "parseWeightsCsv txt = Inr (parse_spec txt)"
proof (cases "nonblank_lines txt")
  case Nil
  then show ?thesis
    by (simp add: parseWeightsCsv_def parse_spec_def nonblank_lines_def Let_def)
next
  case (Cons l ls)
  then have f: "filter (\<lambda>l. l \<noteq> []) (map trim (split_lines [] txt)) = l # ls"
    by (simp add: nonblank_lines_def)
  show ?thesis
  proof (cases "is_header l")
    case True
    then show ?thesis using Cons
      by (auto simp add: parseWeightsCsv_def f parse_spec_def Let_def parse_loop_rows
          is_header_def)
  next
    case False
    then show ?thesis using Cons
      by (auto simp add: parseWeightsCsv_def f parse_spec_def Let_def parse_loop_rows
          is_header_def)
  qed
qed

lemma parse_spec_example:
  "parseWeightsCsv ''w0,w1,w2\<newline>1,2,3\<newline>bad,row\<newline>4,5,6'' =
     Inr [\<lparr>w0 = Fin 1, w1 = Fin 2, w2 = Fin 3\<rparr>, \<lparr>w0 = Fin 4, w1 = Fin 5, w2 = Fin 6\<rparr>]"
  by (simp add: parse_eval toLowerCase_header parseFloat_digit)

lemma parse_empty: "parseWeightsCsv [] = Inr []"
  by (simp add: parse_eval)

lemma toLowerCase_upper_header: "toLowerCase ''W0 , W1 , W2'' = ''w0 , w1 , w2''"
  by code_simp

lemma parse_blank_lines_example:
  "parseWeightsCsv (''  '' @ [CR, LF] @ '' W0 , W1 , W2 '' @ [CR, LF] @ [CR, LF]
       @ '' 1 , 2 , 3 '' @ [CR, LF])
     = Inr [\<lparr>w0 = Fin 1, w1 = Fin 2, w2 = Fin 3\<rparr>]"
  by (simp add: parse_eval toLowerCase_upper_header parseFloat_digit)

text \<open>
  Claim C3: for every input string the parser returns a sequence and does not throw, and
  the sequence is the one the spec describes: the lines are trimmed and the blank ones
  ignored, a first line containing \<open>w0\<close>, \<open>w1\<close> and \<open>w2\<close> in any case is skipped, and
  every other line gives its triple when it splits on commas into at least three fields
  whose first three parse to finite numbers, and is dropped otherwise. The two examples
  of the spec follow, and one with blank lines, carriage returns, an upper-case header
  and spaces around the commas.
\<close>

theorem C3_parser:
  "parseWeightsCsv txt = Inr (parse_spec txt)
   \<and> parseWeightsCsv ''w0,w1,w2\<newline>1,2,3\<newline>bad,row\<newline>4,5,6'' =
       Inr [\<lparr>w0 = Fin 1, w1 = Fin 2, w2 = Fin 3\<rparr>, \<lparr>w0 = Fin 4, w1 = Fin 5, w2 = Fin 6\<rparr>]
   \<and> parseWeightsCsv [] = Inr []
   \<and> parseWeightsCsv (''  '' @ [CR, LF] @ '' W0 , W1 , W2 '' @ [CR, LF] @ [CR, LF]
         @ '' 1 , 2 , 3 '' @ [CR, LF])
       = Inr [\<lparr>w0 = Fin 1, w1 = Fin 2, w2 = Fin 3\<rparr>]"
proof (intro conjI)
  show "parseWeightsCsv txt = Inr (parse_spec txt)" by (rule parse_refines)
  show "parseWeightsCsv ''w0,w1,w2\<newline>1,2,3\<newline>bad,row\<newline>4,5,6'' =
       Inr [\<lparr>w0 = Fin 1, w1 = Fin 2, w2 = Fin 3\<rparr>, \<lparr>w0 = Fin 4, w1 = Fin 5, w2 = Fin 6\<rparr>]"
    by (rule parse_spec_example)
  show "parseWeightsCsv [] = Inr []" by (rule parse_empty)
  show "parseWeightsCsv (''  '' @ [CR, LF] @ '' W0 , W1 , W2 '' @ [CR, LF] @ [CR, LF]
         @ '' 1 , 2 , 3 '' @ [CR, LF])
       = Inr [\<lparr>w0 = Fin 1, w1 = Fin 2, w2 = Fin 3\<rparr>]"
    by (rule parse_blank_lines_example)
qed

section \<open>Properties of the export\<close>

text \<open>The row of one object.\<close>

definition csv_row :: "(real \<Rightarrow> string) \<Rightarrow> obj \<Rightarrow> string" where
  "csv_row str r =
     template str (r ''x1'') @ '','' @ template str (r ''x2'') @ '','' @ template str (r ''y'')"

text \<open>
  A printer for the examples: the decimal numeral of an integral number, which is how
  the host prints one of absolute value below \<open>10^21\<close>.
\<close>

function nat_str :: "nat \<Rightarrow> string" where
  "nat_str n =
     (if n < 10 then [''0123456789'' ! n]
      else nat_str (n div 10) @ [''0123456789'' ! (n mod 10)])"
  by pat_completeness auto
termination
  by (relation "measure (\<lambda>n. n)") auto

definition integer_str :: "real \<Rightarrow> string" where
  "integer_str v =
     (if v < 0 then CHR ''-'' # nat_str (nat \<lfloor>- v\<rfloor>) else nat_str (nat \<lfloor>v\<rfloor>))"

lemma integer_str_small:
  "integer_str 1 = ''1''" "integer_str 3 = ''3''" "integer_str 4 = ''4''"
  by (simp_all add: integer_str_def)

lemma push_all: "foldl (\<lambda>lines r. lines @ [f r]) acc rows = acc @ map f rows"
  by (induction rows arbitrary: acc) simp_all

lemma join_Cons: "join sep (l # ls) = l @ concat (map (\<lambda>m. sep @ m) ls)"
  by (induction ls arbitrary: l) simp_all

lemma toCsv_rows:
  "toCsv str rows = ''x1,x2,y'' @ concat (map (\<lambda>r. LF # csv_row str r) rows)"
proof -
  have "toCsv str rows = join [LF] (''x1,x2,y'' # map (csv_row str) rows)"
    by (simp add: toCsv_def Let_def push_all csv_row_def [abs_def])
  then show ?thesis by (simp add: join_Cons comp_def)
qed

lemma csv_row_point:
  "csv_row str (point_obj p) =
     template str (Some (x1 p)) @ CHR '','' # template str (Some (x2 p)) @ CHR '','' #
       template str (Some (y p))"
  by (simp add: csv_row_def point_obj_def)

text \<open>
  Claim C9: for every dataset, the CSV export is the header \<open>x1,x2,y\<close> followed, for each
  point in the order of the dataset, by one line feed and the point's row, its three
  fields as the host prints them by default, joined by commas; nothing follows the last
  row, and the export of the empty dataset is the header alone. A finite field is printed
  by the host's conversion. For instance the dataset of the one point \<open>(3, 4, 1)\<close> exports
  as the header, a line feed and \<open>3,4,1\<close>.
\<close>

theorem C9_csv_export:
  "toCsv str (map point_obj ds) =
     ''x1,x2,y'' @
     concat (map (\<lambda>p. LF # template str (Some (x1 p)) @ '','' @ template str (Some (x2 p)) @
                         '','' @ template str (Some (y p))) ds)
   \<and> toCsv str [] = ''x1,x2,y''
   \<and> template str (Some (Fin a)) = str a
   \<and> toCsv integer_str (map point_obj [\<lparr>x1 = Fin 3, x2 = Fin 4, y = Fin 1\<rparr>])
       = ''x1,x2,y\<newline>3,4,1''"
proof (intro conjI)
  show "toCsv str (map point_obj ds) =
     ''x1,x2,y'' @
     concat (map (\<lambda>p. LF # template str (Some (x1 p)) @ '','' @ template str (Some (x2 p)) @
                         '','' @ template str (Some (y p))) ds)"
    by (simp add: toCsv_rows comp_def csv_row_point)
  show "toCsv str [] = ''x1,x2,y''" by (simp add: toCsv_rows)
  show "template str (Some (Fin a)) = str a" by (simp add: template_def)
  show "toCsv integer_str (map point_obj [\<lparr>x1 = Fin 3, x2 = Fin 4, y = Fin 1\<rparr>])
       = ''x1,x2,y\<newline>3,4,1''"
    by (simp add: toCsv_rows csv_row_point template_def integer_str_small LF_def)
qed


section \<open>The round trip of a weight sequence\<close>


subsection \<open>The host's conversion of a number to a string\<close>









subsection \<open>The serialiser\<close>





subsection \<open>Decimal digits\<close>

declare nat_str.simps [simp del]










subsection \<open>Reading a decimal literal\<close>













subsection \<open>Every double has digits\<close>








subsection \<open>Reading a printed number\<close>













subsection \<open>Splitting a serialisation into lines\<close>





subsection \<open>Splitting a row into fields\<close>







subsection \<open>The rows of a weight sequence\<close>











subsection \<open>The parser returns doubles\<close>













end
